theory Spec2Isabelle
  imports Complex_Main
begin

section \<open>JavaScript numbers\<close>

text \<open>
  The component computes on JavaScript numbers, which are IEEE 754 binary64 values. A
  number is modelled as a finite real (always one that binary64 represents when it
  comes out of an operation), one of the two infinities, or NaN. The two zeros are
  one value here: negative zero compares equal to zero, is falsy and has absolute value
  zero, and the component never divides by a number or prints its sign, so it cannot
  tell them apart.
\<close>

datatype jsnum = Fin real | PInf | NInf | NaN

text \<open>The number of binary digits of a positive integer.\<close>

function bit_length :: "int \<Rightarrow> int" where
  "bit_length n = (if n \<le> 0 then 0 else 1 + bit_length (n div 2))"
  by pat_completeness auto
termination
  by (relation "measure nat") auto

text \<open>
  \<open>ilog2 a\<close> is the integer \<open>k\<close> with \<open>2 ^ k \<le> a < 2 ^ (k + 1)\<close>, for \<open>a > 0\<close>;
  \<open>pow2 e\<close> is \<open>2\<close> to the power \<open>e\<close> for an integer \<open>e\<close> of either sign.
\<close>

definition ilog2 :: "real \<Rightarrow> int" where
  "ilog2 a = (if 1 \<le> a then bit_length \<lfloor>a\<rfloor> - 1 else - bit_length (\<lceil>1 / a\<rceil> - 1))"

definition pow2 :: "int \<Rightarrow> real" where
  "pow2 e = (if 0 \<le> e then 2 ^ nat e else 1 / 2 ^ nat (- e))"

definition round_half_even :: "real \<Rightarrow> int" where
  "round_half_even q =
     (let f = \<lfloor>q\<rfloor>; d = q - of_int f
      in if d < 1 / 2 then f else if 1 / 2 < d then f + 1 else if even f then f else f + 1)"

text \<open>
  \<open>fl x\<close> is the binary64 value of the real \<open>x\<close>: round to nearest, ties to even, on
  a 53-bit significand whose unit is never below \<open>2 ^ - 1074\<close> (the subnormal range),
  and an infinity once the rounded magnitude reaches \<open>2 ^ 1024\<close>. Every arithmetic
  operation of the language returns \<open>fl\<close> of the exact result, and a decimal literal
  of the source text such as \<open>0.65\<close> denotes \<open>fl 0.65\<close>.
\<close>

definition fl :: "real \<Rightarrow> jsnum" where
  "fl x =
     (if x = 0 then Fin 0
      else let a = \<bar>x\<bar>;
               e = max (- 1074) (ilog2 a - 52);
               v = of_int (round_half_even (a / pow2 e)) * pow2 e
           in if pow2 1024 \<le> v then (if 0 < x then PInf else NInf)
              else Fin (if 0 < x then v else - v))"

text \<open>The operators \<open>*\<close> and \<open>-\<close>.\<close>

fun js_times :: "jsnum \<Rightarrow> jsnum \<Rightarrow> jsnum" where
  "js_times (Fin a) (Fin b) = fl (a * b)"
| "js_times NaN y = NaN"
| "js_times x NaN = NaN"
| "js_times (Fin a) PInf = (if a = 0 then NaN else if 0 < a then PInf else NInf)"
| "js_times (Fin a) NInf = (if a = 0 then NaN else if 0 < a then NInf else PInf)"
| "js_times PInf (Fin b) = (if b = 0 then NaN else if 0 < b then PInf else NInf)"
| "js_times NInf (Fin b) = (if b = 0 then NaN else if 0 < b then NInf else PInf)"
| "js_times PInf PInf = PInf"
| "js_times PInf NInf = NInf"
| "js_times NInf PInf = NInf"
| "js_times NInf NInf = PInf"

fun js_minus :: "jsnum \<Rightarrow> jsnum \<Rightarrow> jsnum" where
  "js_minus (Fin a) (Fin b) = fl (a - b)"
| "js_minus NaN y = NaN"
| "js_minus x NaN = NaN"
| "js_minus PInf PInf = NaN"
| "js_minus NInf NInf = NaN"
| "js_minus PInf y = PInf"
| "js_minus NInf y = NInf"
| "js_minus (Fin a) PInf = NInf"
| "js_minus (Fin a) NInf = PInf"

text \<open>
  The comparisons \<open>x > y\<close>, \<open>x === y\<close> and \<open>x !== y\<close> on numbers. Every ordered
  comparison with NaN is false, and NaN is not equal to itself.
\<close>

fun js_gt :: "jsnum \<Rightarrow> jsnum \<Rightarrow> bool" where
  "js_gt (Fin a) (Fin b) = (b < a)"
| "js_gt NaN y = False"
| "js_gt x NaN = False"
| "js_gt PInf PInf = False"
| "js_gt PInf y = True"
| "js_gt NInf y = False"
| "js_gt (Fin a) PInf = False"
| "js_gt (Fin a) NInf = True"

definition js_eq :: "jsnum \<Rightarrow> jsnum \<Rightarrow> bool" where
  "js_eq x y = (x \<noteq> NaN \<and> x = y)"

definition js_ne :: "jsnum \<Rightarrow> jsnum \<Rightarrow> bool" where
  "js_ne x y = (\<not> js_eq x y)"

text \<open>\<open>isNaN\<close>, \<open>Math.abs\<close> and \<open>Math.max\<close>; the maximum is NaN when an argument is.\<close>

definition isNaN :: "jsnum \<Rightarrow> bool" where
  "isNaN x = (x = NaN)"

fun Math_abs :: "jsnum \<Rightarrow> jsnum" where
  "Math_abs (Fin a) = Fin \<bar>a\<bar>"
| "Math_abs PInf = PInf"
| "Math_abs NInf = PInf"
| "Math_abs NaN = NaN"

definition Math_max :: "jsnum \<Rightarrow> jsnum \<Rightarrow> jsnum" where
  "Math_max x y = (if x = NaN \<or> y = NaN then NaN else if js_gt y x then y else x)"

text \<open>
  \<open>v || 0\<close> for a property read \<open>v\<close> of a record of numbers: the read is
  \<open>undefined\<close> (here \<open>None\<close>) when the key is absent, and \<open>undefined\<close>, NaN and
  zero are the falsy values.
\<close>

definition or_zero :: "jsnum option \<Rightarrow> jsnum" where
  "or_zero v = (case v of None \<Rightarrow> Fin 0 | Some x \<Rightarrow> if x = NaN \<or> x = Fin 0 then Fin 0 else x)"

text \<open>
  The finite numbers below the overflow threshold of the rounding; every finite binary64
  number is one.
\<close>

definition finite_number :: "jsnum \<Rightarrow> bool" where
  "finite_number v = (case v of Fin x \<Rightarrow> \<bar>x\<bar> < pow2 1024 - pow2 970 | _ \<Rightarrow> False)"

section \<open>The normalizer\<close>

text \<open>
  A field value is a string, a number, or anything else; \<open>typeof\<close> tells the three
  apart. Among the other values, some cannot be converted to text: a Symbol, or an
  object whose \<open>toString\<close> and \<open>valueOf\<close> yield no primitive, such as the value of the
  JSON text \<open>{"toString": 1}\<close>. They are \<open>VNoText\<close>; the values that convert (null, a
  boolean, an array or a nested record of such) are \<open>VOther\<close>. The income statement is
  the list of its entries in the order \<open>Object.entries\<close> yields them; the keys of a
  JavaScript object are distinct.
\<close>

datatype jsval = VStr string | VNum jsnum | VOther | VNoText

type_synonym RawStatement = "(string \<times> jsval) list"

definition is_digit :: "char \<Rightarrow> bool" where
  "is_digit c = (c \<in> set ''0123456789'')"

text \<open>\<open>value.toString().replace(/[^\d.-]/g, '')\<close>: keep digits, dots and minus signs.\<close>

definition strip_non_numeric :: "string \<Rightarrow> string" where
  "strip_non_numeric s = filter (\<lambda>c. is_digit c \<or> c = CHR ''.'' \<or> c = CHR ''-'') s"

definition digits_value :: "string \<Rightarrow> int" where
  "digits_value ds = foldl (\<lambda>n c. 10 * n + (of_char c - 48)) 0 ds"

text \<open>
  \<open>parseFloat\<close> on a string of digits, dots and minus signs, which is all the
  replacement leaves (no white space, plus sign, exponent or letter): it reads the longest
  prefix of the shape sign, digits, dot, digits that holds at least one digit and
  returns the binary64 value of that decimal; it returns NaN when there is no such prefix.
\<close>

definition parseFloat :: "string \<Rightarrow> jsnum" where
  "parseFloat s =
     (let neg = (case s of c # _ \<Rightarrow> c = CHR ''-'' | [] \<Rightarrow> False);
          s1 = (if neg then tl s else s);
          ip = takeWhile is_digit s1;
          r1 = dropWhile is_digit s1;
          fp = (case r1 of c # t \<Rightarrow> if c = CHR ''.'' then takeWhile is_digit t else [] | [] \<Rightarrow> []);
          m = real_of_int (digits_value ip) + real_of_int (digits_value fp) / 10 ^ length fp
      in if ip = [] \<and> fp = [] then NaN else fl (if neg then - m else m))"

text \<open>
  The assignment \<open>cleanedData[key] = n\<close> of a number to a property of a plain object.
  It creates or updates the property, except under the key \<open>__proto__\<close>: there it reaches
  the setter that the object inherits, which ignores a value that is not an object, and
  nothing is stored.
\<close>

definition assign :: "(string \<rightharpoonup> jsnum) \<Rightarrow> string \<Rightarrow> jsnum \<Rightarrow> (string \<rightharpoonup> jsnum)" where
  "assign obj key n = (if key = ''__proto__'' then obj else obj(key \<mapsto> n))"

text \<open>
  The callback of \<open>Object.entries(incomeStatement).forEach\<close> (lines 67 to 93), on the
  pair of \<open>cleanedData\<close> and \<open>unknownFields\<close>. After the test for the key \<open>error\<close>,
  line 71 converts the value to text for the log; on a value that cannot be converted
  this throws a TypeError, which is the result \<open>None\<close>.
\<close>

definition cleanEntry ::
  "(string \<rightharpoonup> jsnum) \<times> string list \<Rightarrow> string \<times> jsval \<Rightarrow>
   ((string \<rightharpoonup> jsnum) \<times> string list) option" where
  "cleanEntry acc kv =
     (let cleanedData = fst acc; unknownFields = snd acc; key = fst kv in
      if key = ''error'' then Some acc
      else case snd kv of
        VNoText \<Rightarrow> None
      | VStr s \<Rightarrow>
          if s \<noteq> ''Unknown'' then
            (let cleanStr = strip_non_numeric s; numValue = parseFloat cleanStr
             in if \<not> isNaN numValue then Some (assign cleanedData key numValue, unknownFields)
                else Some (cleanedData, unknownFields @ [key]))
          else Some (cleanedData, unknownFields @ [key])
      | VNum n \<Rightarrow> Some (assign cleanedData key n, unknownFields)
      | VOther \<Rightarrow> Some (cleanedData, unknownFields @ [key]))"

text \<open>
  The loop calls the callback on the entries in order; an exception of the callback ends
  the loop and leaves the \<open>try\<close> block.
\<close>

fun forEach ::
  "(string \<rightharpoonup> jsnum) \<times> string list \<Rightarrow> RawStatement \<Rightarrow>
   ((string \<rightharpoonup> jsnum) \<times> string list) option" where
  "forEach acc [] = Some acc"
| "forEach acc (kv # rest) =
     (case cleanEntry acc kv of None \<Rightarrow> None | Some acc' \<Rightarrow> forEach acc' rest)"

definition cleanStatement ::
  "RawStatement \<Rightarrow> ((string \<rightharpoonup> jsnum) \<times> string list) option" where
  "cleanStatement incomeStatement = forEach (Map.empty, []) incomeStatement"

definition cleanedData :: "RawStatement \<Rightarrow> (string \<rightharpoonup> jsnum) option" where
  "cleanedData incomeStatement = map_option fst (cleanStatement incomeStatement)"

definition unknownFields :: "RawStatement \<Rightarrow> string list option" where
  "unknownFields incomeStatement = map_option snd (cleanStatement incomeStatement)"

text \<open>
  The statements on which the loop throws: those with a field, other than \<open>error\<close>,
  whose value cannot be converted to text.
\<close>

definition no_text_field :: "RawStatement \<Rightarrow> bool" where
  "no_text_field incomeStatement =
     list_ex (\<lambda>kv. fst kv \<noteq> ''error'' \<and> snd kv = VNoText) incomeStatement"

text \<open>
  What the callback stores for a field value, read off its branches: the parsed number
  of a string that is not \<open>"Unknown"\<close> and does not parse to NaN, a number as it is, and
  nothing otherwise. For a statement with distinct keys on which the loop does not throw,
  \<open>cleanedLookup\<close> is the cleaned record in closed form; the lemmas \<open>cleanEntry_cases\<close>
  and \<open>cleanedData_char\<close> relate the two to the callback and the loop.
\<close>

definition cleanValue :: "jsval \<Rightarrow> jsnum option" where
  "cleanValue v =
     (case v of
        VStr s \<Rightarrow>
          if s \<noteq> ''Unknown'' \<and> \<not> isNaN (parseFloat (strip_non_numeric s))
          then Some (parseFloat (strip_non_numeric s)) else None
      | VNum n \<Rightarrow> Some n
      | VOther \<Rightarrow> None
      | VNoText \<Rightarrow> None)"

definition cleanedLookup :: "RawStatement \<Rightarrow> (string \<rightharpoonup> jsnum)" where
  "cleanedLookup incomeStatement =
     (\<lambda>k. if k = ''error'' \<or> k = ''__proto__'' then None
          else Option.bind (map_of incomeStatement k) cleanValue)"

section \<open>Defaulting and inference\<close>

record FinancialData =
  Revenue :: jsnum
  Cost_of_Revenue :: jsnum
  Gross_Profit :: jsnum
  Operating_Expenses :: jsnum
  Operating_Income :: jsnum
  Net_Income :: jsnum

text \<open>Lines 104 to 111: each field is \<open>cleanedData.Field || 0\<close>.\<close>

definition initialFinancialData :: "(string \<rightharpoonup> jsnum) \<Rightarrow> FinancialData" where
  "initialFinancialData cd =
     \<lparr>Revenue = or_zero (cd ''Revenue''),
      Cost_of_Revenue = or_zero (cd ''Cost_of_Revenue''),
      Gross_Profit = or_zero (cd ''Gross_Profit''),
      Operating_Expenses = or_zero (cd ''Operating_Expenses''),
      Operating_Income = or_zero (cd ''Operating_Income''),
      Net_Income = or_zero (cd ''Net_Income'')\<rparr>"

text \<open>
  The five conditional blocks that follow update \<open>financialData\<close> in place, one after
  the other. Each is a function from the record to the updated record; an assignment that
  reads a field written just before it reads the new value.
\<close>

text \<open>Rule 1, lines 114 to 129.\<close>

definition rule1 :: "FinancialData \<Rightarrow> FinancialData" where
  "rule1 fd =
     (if js_gt (Revenue fd) (Fin 0) then
        if js_eq (Gross_Profit fd) (Fin 0) then
          if js_gt (Cost_of_Revenue fd) (Fin 0) then
            fd\<lparr>Gross_Profit := js_minus (Revenue fd) (Cost_of_Revenue fd)\<rparr>
          else
            (let fd1 = fd\<lparr>Cost_of_Revenue := js_times (Revenue fd) (fl 0.65)\<rparr>
             in fd1\<lparr>Gross_Profit := js_minus (Revenue fd1) (Cost_of_Revenue fd1)\<rparr>)
        else if js_eq (Cost_of_Revenue fd) (Fin 0) then
          fd\<lparr>Cost_of_Revenue := js_minus (Revenue fd) (Gross_Profit fd)\<rparr>
        else fd
      else fd)"

text \<open>Rule 2, lines 132 to 147.\<close>

definition rule2 :: "FinancialData \<Rightarrow> FinancialData" where
  "rule2 fd =
     (if js_gt (Gross_Profit fd) (Fin 0) then
        if js_eq (Operating_Income fd) (Fin 0) then
          if js_gt (Operating_Expenses fd) (Fin 0) then
            fd\<lparr>Operating_Income := js_minus (Gross_Profit fd) (Operating_Expenses fd)\<rparr>
          else
            (let fd1 = fd\<lparr>Operating_Expenses := js_times (Gross_Profit fd) (fl 0.7)\<rparr>
             in fd1\<lparr>Operating_Income := js_minus (Gross_Profit fd1) (Operating_Expenses fd1)\<rparr>)
        else if js_eq (Operating_Expenses fd) (Fin 0) then
          fd\<lparr>Operating_Expenses := js_minus (Gross_Profit fd) (Operating_Income fd)\<rparr>
        else fd
      else fd)"

text \<open>Rule 3, lines 150 to 153.\<close>

definition rule3 :: "FinancialData \<Rightarrow> FinancialData" where
  "rule3 fd =
     (if js_ne (Operating_Income fd) (Fin 0) \<and> js_eq (Net_Income fd) (Fin 0) then
        fd\<lparr>Net_Income := js_times (Operating_Income fd) (fl 0.75)\<rparr>
      else fd)"

text \<open>Rule 4, lines 156 to 159.\<close>

definition rule4 :: "FinancialData \<Rightarrow> FinancialData" where
  "rule4 fd =
     (if js_eq (Revenue fd) (Fin 0) \<and> js_gt (Gross_Profit fd) (Fin 0) then
        (let fd1 = fd\<lparr>Revenue := js_times (Gross_Profit fd) (fl 1.5)\<rparr>
         in fd1\<lparr>Cost_of_Revenue := js_minus (Revenue fd1) (Gross_Profit fd1)\<rparr>)
      else fd)"

text \<open>Rule 5, lines 162 to 164.\<close>

definition rule5 :: "FinancialData \<Rightarrow> FinancialData" where
  "rule5 fd =
     (if js_ne (Net_Income fd) (Fin 0) \<and> js_eq (Operating_Income fd) (Fin 0) then
        fd\<lparr>Operating_Income := js_times (Net_Income fd) (fl 1.25)\<rparr>
      else fd)"

definition infer :: "FinancialData \<Rightarrow> FinancialData" where
  "infer fd = rule5 (rule4 (rule3 (rule2 (rule1 fd))))"

text \<open>
  The value of \<open>financialData\<close> when the nodes are built, line 166, if the loop has not
  thrown.
\<close>

definition financialData :: "RawStatement \<Rightarrow> FinancialData option" where
  "financialData incomeStatement =
     map_option (\<lambda>cd. infer (initialFinancialData cd)) (cleanedData incomeStatement)"

text \<open>The six keys that the defaulting reads.\<close>

definition financial_fields :: "string list" where
  "financial_fields =
     [''Revenue'', ''Cost_of_Revenue'', ''Gross_Profit'', ''Operating_Expenses'',
      ''Operating_Income'', ''Net_Income'']"

text \<open>
  The conditions under which rule 1 reaches one of its two assignments to
  \<open>Cost_of_Revenue\<close> (lines 121 and 127), and under which rule 4 runs its body.
\<close>

definition rule1_sets_cost :: "FinancialData \<Rightarrow> bool" where
  "rule1_sets_cost fd =
     (js_gt (Revenue fd) (Fin 0) \<and>
      (if js_eq (Gross_Profit fd) (Fin 0) then \<not> js_gt (Cost_of_Revenue fd) (Fin 0)
       else js_eq (Cost_of_Revenue fd) (Fin 0)))"

definition rule4_fires :: "FinancialData \<Rightarrow> bool" where
  "rule4_fires fd = (js_eq (Revenue fd) (Fin 0) \<and> js_gt (Gross_Profit fd) (Fin 0))"

section \<open>The graph\<close>

record SankeyNode =
  name :: string
  node_value :: jsnum

record SankeyLink =
  source :: nat
  target :: nat
  link_value :: jsnum
  absoluteValue :: jsnum

record SankeyData =
  nodes :: "SankeyNode list"
  links :: "SankeyLink list"

definition minFlowValue :: jsnum where
  "minFlowValue = Fin 1"

text \<open>Lines 167 to 174.\<close>

definition mkNodes :: "FinancialData \<Rightarrow> SankeyNode list" where
  "mkNodes fd =
     [\<lparr>name = ''Revenue'', node_value = Revenue fd\<rparr>,
      \<lparr>name = ''Cost'', node_value = Cost_of_Revenue fd\<rparr>,
      \<lparr>name = ''Gross Profit'', node_value = Gross_Profit fd\<rparr>,
      \<lparr>name = ''Op Expenses'', node_value = Operating_Expenses fd\<rparr>,
      \<lparr>name = ''Op Income'', node_value = Operating_Income fd\<rparr>,
      \<lparr>name = ''Net Income'', node_value = Net_Income fd\<rparr>]"

text \<open>Lines 178 to 221: the clamped magnitudes and the five links.\<close>

definition mkLinks :: "FinancialData \<Rightarrow> SankeyLink list" where
  "mkLinks fd =
     (let costOfRevenue = Math_max minFlowValue (Math_abs (Cost_of_Revenue fd));
          grossProfit = Math_max minFlowValue (Math_abs (Gross_Profit fd));
          operatingExpenses = Math_max minFlowValue (Math_abs (Operating_Expenses fd));
          operatingIncome = Math_max minFlowValue (Math_abs (Operating_Income fd));
          netIncome = Math_max minFlowValue (Math_abs (Net_Income fd))
      in [\<lparr>source = 0, target = 1, link_value = costOfRevenue,
            absoluteValue = Cost_of_Revenue fd\<rparr>,
          \<lparr>source = 0, target = 2, link_value = grossProfit,
            absoluteValue = Gross_Profit fd\<rparr>,
          \<lparr>source = 2, target = 3, link_value = operatingExpenses,
            absoluteValue = Operating_Expenses fd\<rparr>,
          \<lparr>source = 2, target = 4, link_value = operatingIncome,
            absoluteValue = Operating_Income fd\<rparr>,
          \<lparr>source = 4, target = 5, link_value = netIncome,
            absoluteValue = Net_Income fd\<rparr>])"

text \<open>The comparison \<open>v >= minFlowValue\<close>, the floor that the clamping is for.\<close>

definition at_least_floor :: "jsnum \<Rightarrow> bool" where
  "at_least_floor v = (js_gt v minFlowValue \<or> js_eq v minFlowValue)"

text \<open>
  The argument of \<open>setData\<close>, line 244, if the \<open>try\<close> block gets there: nothing after the
  loop throws.
\<close>

definition sankeyData :: "RawStatement \<Rightarrow> SankeyData option" where
  "sankeyData incomeStatement =
     map_option (\<lambda>fd. \<lparr>nodes = mkNodes fd, links = mkLinks fd\<rparr>) (financialData incomeStatement)"

section \<open>The component: effect and rendering\<close>

text \<open>
  The component keeps two state variables, \<open>data\<close> and \<open>error\<close>, both initially null.
  The effect runs on every new \<open>incomeStatement\<close>. On a null or undefined statement it
  logs and returns at once (lines 57 to 60), touching neither variable. Otherwise it
  builds the graph and calls \<open>setData\<close> with it and \<open>setError(null)\<close>. When the loop
  throws, the \<open>catch\<close> branch (lines 247 to 250) calls \<open>setError\<close> with its message and
  \<open>data\<close> keeps its value. The rest of the console output and the diagnostic checks of
  lines 96 to 101 and 227 to 242 only write to the console and are left out, and with them
  the clamped \<open>revenue\<close> of line 179, which only those checks read.
\<close>

record ChartState =
  data :: "SankeyData option"
  error :: "string option"

definition initialState :: ChartState where
  "initialState = \<lparr>data = None, error = None\<rparr>"

definition failureMessage :: string where
  "failureMessage = ''Failed to create visualization. Please check the console for details.''"

definition effect :: "RawStatement option \<Rightarrow> ChartState \<Rightarrow> ChartState" where
  "effect incomeStatement st =
     (case incomeStatement of
        None \<Rightarrow> st
      | Some stmt \<Rightarrow>
          (case sankeyData stmt of
             Some d \<Rightarrow> st\<lparr>data := Some d, error := None\<rparr>
           | None \<Rightarrow> st\<lparr>error := Some failureMessage\<rparr>))"

text \<open>
  What the component returns (lines 283 to 300 and the chart after them): the failure
  panel with the message and the advice to upload a different document when \<open>error\<close> is
  set, the panel reading "Preparing visualization..." when there is no data, and the chart
  otherwise.
\<close>

datatype View = FailurePanel string | PreparingPanel | Chart SankeyData

definition render :: "ChartState \<Rightarrow> View" where
  "render st =
     (case error st of
        Some msg \<Rightarrow> FailurePanel msg
      | None \<Rightarrow> (case data st of None \<Rightarrow> PreparingPanel | Some d \<Rightarrow> Chart d))"

section \<open>Evaluating the number model\<close>

text \<open>
  The recursion of \<open>bit_length\<close> is unfolded only where the sign of the argument is
  known, which is the case at every numeral.
\<close>

declare bit_length.simps [simp del]

lemma bit_length_nonpos: "n \<le> 0 \<Longrightarrow> bit_length n = 0"
  by (simp add: bit_length.simps)

lemma bit_length_pos: "0 < n \<Longrightarrow> bit_length n = 1 + bit_length (n div 2)"
  by (subst bit_length.simps) simp

lemmas fl_eval =
  fl_def ilog2_def pow2_def round_half_even_def Let_def bit_length_pos bit_length_nonpos

lemmas parse_eval = parseFloat_def strip_non_numeric_def is_digit_def digits_value_def

lemmas rule_defs = infer_def rule1_def rule2_def rule3_def rule4_def rule5_def js_eq_def js_ne_def

lemma fl_065: "fl 0.65 = Fin (5854679515581645 / 2 ^ 53)"
  by (simp add: fl_eval)

lemma fl_constants:
  "fl 0.7 = Fin (3152519739159347 / 2 ^ 52)" "fl 0.75 = Fin (3 / 4)"
  "fl 1.5 = Fin (3 / 2)" "fl 1.25 = Fin (5 / 4)"
  by (simp_all add: fl_eval)

section \<open>Properties of the number model\<close>

text \<open>
  The binary length and the binary logarithm are what their names say. The rounding
  sends a real at or above \<open>2 ^ 1024\<close> to infinity, keeps a positive real below the
  overflow threshold \<open>2 ^ 1024 - 2 ^ 970\<close> finite, and in the normal range moves it by
  at most the relative error \<open>2 ^ - 53\<close>.
\<close>

lemma bit_length_nonneg: "0 \<le> bit_length n"
proof (induction n rule: bit_length.induct)
  case (1 n)
  show ?case
  proof (cases "n \<le> 0")
    case True
    then show ?thesis by (simp add: bit_length_nonpos)
  next
    case False
    with 1 have "0 \<le> bit_length (n div 2)" by simp
    with False show ?thesis by (simp add: bit_length_pos)
  qed
qed

lemma bit_length_bounds:
  "0 < n \<Longrightarrow> 2 ^ nat (bit_length n - 1) \<le> n \<and> n < 2 ^ nat (bit_length n)"
proof (induction n rule: bit_length.induct)
  case (1 n)
  show ?case
  proof (cases "n = 1")
    case True
    then show ?thesis by (simp add: bit_length_pos bit_length_nonpos)
  next
    case False
    with "1.prems" have h: "0 < n div 2" by simp
    let ?b = "bit_length (n div 2)"
    from h "1.prems" "1.IH" have IH: "2 ^ nat (?b - 1) \<le> n div 2 \<and> n div 2 < 2 ^ nat ?b"
      by simp
    from h have "?b = 1 + bit_length (n div 2 div 2)" by (rule bit_length_pos)
    with bit_length_nonneg [of "n div 2 div 2"] have bpos: "0 < ?b" by simp
    from "1.prems" have bl: "bit_length n = 1 + ?b" by (rule bit_length_pos)
    from bpos bl have e1: "nat (bit_length n - 1) = Suc (nat (?b - 1))" by simp
    from bpos bl have e2: "nat (bit_length n) = Suc (nat ?b)" by simp
    have n: "2 * (n div 2) \<le> n" "n \<le> 2 * (n div 2) + 1" by simp_all
    from IH n have "2 * 2 ^ nat (?b - 1) \<le> n" by linarith
    moreover from IH n have "n < 2 * 2 ^ nat ?b" by linarith
    ultimately show ?thesis by (simp add: e1 e2)
  qed
qed

lemma bit_length_pos_gt: "0 < n \<Longrightarrow> 0 < bit_length n"
  using bit_length_pos [of n] bit_length_nonneg [of "n div 2"] by simp

lemma pow2_powi: "pow2 e = 2 powi e"
  by (simp add: pow2_def power_int_def power_one_over)

lemma pow2_pos [simp]: "0 < pow2 e"
  by (simp add: pow2_powi)

lemma pow2_mono: "a \<le> b \<Longrightarrow> pow2 a \<le> pow2 b"
  by (simp add: pow2_powi power_int_increasing)

lemma pow2_less_cancel: "pow2 a < pow2 b \<Longrightarrow> a < b"
  by (metis pow2_mono not_le)

lemma pow2_add: "pow2 (a + b) = pow2 a * pow2 b"
  by (simp add: pow2_powi power_int_add)

lemma pow2_nat: "0 \<le> k \<Longrightarrow> pow2 k = real_of_int (2 ^ nat k)"
  by (simp add: pow2_def)

lemma pow2_neg: "0 \<le> k \<Longrightarrow> pow2 (- k) = 1 / real_of_int (2 ^ nat k)"
  by (cases "k = 0") (simp_all add: pow2_def)

lemma ilog2_bounds_ge1:
  assumes "1 \<le> a"
  shows "pow2 (ilog2 a) \<le> a \<and> a < pow2 (ilog2 a + 1)"
proof -
  let ?n = "\<lfloor>a\<rfloor>"
  from assms have n: "0 < ?n" by simp
  define k where "k = bit_length ?n - 1"
  from bit_length_pos_gt [OF n] have k: "0 \<le> k" by (simp add: k_def)
  then have k1: "nat (k + 1) = nat (bit_length ?n)" by (simp add: k_def)
  from bit_length_bounds [OF n] have lo: "2 ^ nat k \<le> ?n" and hi: "?n < 2 ^ nat (k + 1)"
    by (simp_all add: k_def k1)
  have il: "ilog2 a = k" using assms by (simp add: ilog2_def k_def)
  from lo have "real_of_int (2 ^ nat k) \<le> real_of_int ?n"
    by (rule of_int_le_iff [THEN iffD2])
  also have "real_of_int ?n \<le> a" by simp
  finally have one: "pow2 k \<le> a" using k by (simp add: pow2_nat)
  from hi have "?n + 1 \<le> 2 ^ nat (k + 1)" by simp
  then have "real_of_int (?n + 1) \<le> real_of_int (2 ^ nat (k + 1))"
    by (rule of_int_le_iff [THEN iffD2])
  moreover have "a < real_of_int (?n + 1)" by simp
  ultimately have "a < real_of_int (2 ^ nat (k + 1))" by (rule less_le_trans [rotated])
  with k have two: "a < pow2 (k + 1)" by (simp add: pow2_nat)
  from one two il show ?thesis by simp
qed

lemma ilog2_bounds_lt1:
  assumes "0 < a" and "a < 1"
  shows "pow2 (ilog2 a) \<le> a \<and> a < pow2 (ilog2 a + 1)"
proof -
  let ?m = "\<lceil>1 / a\<rceil>"
  from assms have y: "1 < 1 / a" by simp
  then have "1 < ?m" by (simp add: less_ceiling_iff)
  then have m: "0 < ?m - 1" by simp
  define j where "j = bit_length (?m - 1)"
  from bit_length_pos_gt [OF m] have j: "0 < j" by (simp add: j_def)
  from bit_length_bounds [OF m] have lo: "2 ^ nat (j - 1) \<le> ?m - 1" and hi: "?m - 1 < 2 ^ nat j"
    by (simp_all add: j_def)
  have il: "ilog2 a = - j" using assms by (simp add: ilog2_def j_def)
  define P where "P = real_of_int (2 ^ nat j)"
  define Q where "Q = real_of_int (2 ^ nat (j - 1))"
  have P: "0 < P" and Q: "0 < Q" by (simp_all add: P_def Q_def)
  from hi have "?m \<le> 2 ^ nat j" by simp
  then have "real_of_int ?m \<le> P" unfolding P_def by (rule of_int_le_iff [THEN iffD2])
  moreover have "1 / a \<le> real_of_int ?m" by simp
  ultimately have "1 / a \<le> P" by linarith
  with assms P have "1 / P \<le> a" by (simp add: field_simps)
  with j have one: "pow2 (- j) \<le> a" by (simp add: pow2_neg P_def)
  from lo have "Q \<le> real_of_int (?m - 1)" unfolding Q_def by (rule of_int_le_iff [THEN iffD2])
  moreover have "real_of_int (?m - 1) < 1 / a"
    using ceiling_correct [of "1 / a"] by simp
  ultimately have "Q < 1 / a" by linarith
  with assms Q have "a < 1 / Q" by (simp add: field_simps)
  moreover from j have "pow2 (- (j - 1)) = 1 / Q" unfolding Q_def by (intro pow2_neg) simp
  ultimately have two: "a < pow2 (- j + 1)" by simp
  from one two il show ?thesis by simp
qed

lemma ilog2_bounds: "0 < a \<Longrightarrow> pow2 (ilog2 a) \<le> a \<and> a < pow2 (ilog2 a + 1)"
  using ilog2_bounds_ge1 [of a] ilog2_bounds_lt1 [of a] by (cases "1 \<le> a") simp_all

lemma round_half_even_ge: "of_int m \<le> q \<Longrightarrow> m \<le> round_half_even q"
proof -
  assume "of_int m \<le> q"
  then have "m \<le> \<lfloor>q\<rfloor>" by (simp add: le_floor_iff)
  then show ?thesis by (simp add: round_half_even_def Let_def)
qed

lemma round_half_even_le: "q \<le> of_int m \<Longrightarrow> round_half_even q \<le> m"
proof -
  assume q: "q \<le> of_int m"
  have fq: "real_of_int \<lfloor>q\<rfloor> \<le> q" by simp
  from q have f: "\<lfloor>q\<rfloor> \<le> m" by (simp add: floor_le_iff)
  show ?thesis
  proof (cases "\<lfloor>q\<rfloor> = m")
    case True
    with q fq have "q - real_of_int \<lfloor>q\<rfloor> \<le> 0" by simp
    with True show ?thesis by (simp add: round_half_even_def Let_def)
  next
    case False
    with f have "\<lfloor>q\<rfloor> + 1 \<le> m" by simp
    then show ?thesis by (simp add: round_half_even_def Let_def)
  qed
qed

lemma round_half_even_below_half: "q < of_int m + 1 / 2 \<Longrightarrow> round_half_even q \<le> m"
proof -
  assume q: "q < of_int m + 1 / 2"
  have fq: "real_of_int \<lfloor>q\<rfloor> \<le> q" by simp
  with q have "real_of_int \<lfloor>q\<rfloor> < real_of_int (m + 1)" by simp linarith
  then have "\<lfloor>q\<rfloor> < m + 1" by (rule of_int_less_iff [THEN iffD1])
  then have f: "\<lfloor>q\<rfloor> \<le> m" by simp
  show ?thesis
  proof (cases "\<lfloor>q\<rfloor> = m")
    case True
    with q have "q - real_of_int \<lfloor>q\<rfloor> < 1 / 2" by simp
    with True show ?thesis by (simp add: round_half_even_def Let_def)
  next
    case False
    with f have "\<lfloor>q\<rfloor> + 1 \<le> m" by simp
    then show ?thesis by (simp add: round_half_even_def Let_def)
  qed
qed

lemma round_half_even_nonneg: "0 \<le> q \<Longrightarrow> 0 \<le> round_half_even q"
  using round_half_even_ge [of 0 q] by simp

lemma round_half_even_err: "\<bar>real_of_int (round_half_even q) - q\<bar> \<le> 1 / 2"
proof -
  have "real_of_int \<lfloor>q\<rfloor> \<le> q" and "q < real_of_int \<lfloor>q\<rfloor> + 1" by linarith+
  then show ?thesis by (auto simp add: round_half_even_def Let_def)
qed

lemma fl_overflow_ge:
  assumes "pow2 1024 \<le> x"
  shows "fl x = PInf"
proof -
  from pow2_pos [of 1024] assms have x: "0 < x" by linarith
  define k where "k = ilog2 x"
  define e where "e = k - 52"
  from ilog2_bounds [OF x] have lo: "pow2 k \<le> x" and hi: "x < pow2 (k + 1)"
    by (simp_all add: k_def)
  from assms hi have "pow2 1024 < pow2 (k + 1)" by simp
  then have "1024 < k + 1" by (rule pow2_less_cancel)
  then have k: "1024 \<le> k" by simp
  have split: "pow2 52 * pow2 e = pow2 k" using pow2_add [of 52 e] by (simp add: e_def)
  have pe: "0 < pow2 e" by (rule pow2_pos)
  from lo split have "pow2 52 * pow2 e \<le> x" by simp
  with pe have "pow2 52 \<le> x / pow2 e" by (simp add: field_simps)
  moreover have p52: "pow2 52 = real_of_int (2 ^ 52)" by (simp add: pow2_def)
  ultimately have "real_of_int (2 ^ 52) \<le> x / pow2 e" by simp
  then have "2 ^ 52 \<le> round_half_even (x / pow2 e)" by (rule round_half_even_ge)
  then have "real_of_int (2 ^ 52) \<le> real_of_int (round_half_even (x / pow2 e))"
    by (rule of_int_le_iff [THEN iffD2])
  with p52 have "pow2 52 \<le> real_of_int (round_half_even (x / pow2 e))" by simp
  then have "pow2 52 * pow2 e \<le> real_of_int (round_half_even (x / pow2 e)) * pow2 e"
    by (rule mult_right_mono) (rule less_imp_le [OF pe])
  with split have "pow2 k \<le> real_of_int (round_half_even (x / pow2 e)) * pow2 e"
    by simp
  moreover from k have "pow2 1024 \<le> pow2 k" by (rule pow2_mono)
  ultimately have big: "pow2 1024 \<le> real_of_int (round_half_even (x / pow2 e)) * pow2 e"
    by simp
  from k have "max (- 1074) (ilog2 x - 52) = e" by (simp add: e_def k_def)
  with big x show ?thesis
    by (simp add: fl_def Let_def)
qed

text \<open>
  The rounding of a positive real below the overflow threshold is the rounded significand
  at the scale of the real.
\<close>

lemma fl_positive_finite:
  assumes x: "0 < x" and below: "x < pow2 1024 - pow2 970"
  defines "e \<equiv> max (- 1074) (ilog2 x - 52)"
  shows "fl x = Fin (real_of_int (round_half_even (x / pow2 e)) * pow2 e)"
proof -
  define k where "k = ilog2 x"
  define q where "q = x / pow2 e"
  define m where "m = round_half_even q"
  from ilog2_bounds [OF x] have lo: "pow2 k \<le> x" and hi: "x < pow2 (k + 1)"
    by (simp_all add: k_def)
  have pe: "0 < pow2 e" by (rule pow2_pos)
  have "0 < pow2 970" by (rule pow2_pos)
  with lo below have "pow2 k < pow2 1024" by linarith
  then have k: "k < 1024" by (rule pow2_less_cancel)
  have e: "e \<le> 971" "k - 52 \<le> e" using k by (simp_all add: e_def k_def)
  have v: "real_of_int m * pow2 e < pow2 1024"
  proof (cases "e = 971")
    case True
    have "pow2 1024 = pow2 971 * pow2 53" using pow2_add [of 971 53] by simp
    moreover have "pow2 970 = pow2 971 * pow2 (- 1)" using pow2_add [of 971 "- 1"] by simp
    moreover have "pow2 53 = real_of_int (2 ^ 53)" "pow2 (- 1) = 1 / 2" by (simp_all add: pow2_def)
    ultimately have "pow2 1024 - pow2 970 = (real_of_int (2 ^ 53 - 1) + 1 / 2) * pow2 971"
      by (simp add: algebra_simps)
    with below True have "x < (real_of_int (2 ^ 53 - 1) + 1 / 2) * pow2 e" by simp
    with pe have "q < real_of_int (2 ^ 53 - 1) + 1 / 2"
      by (simp add: q_def field_simps)
    then have "m \<le> 2 ^ 53 - 1" unfolding m_def by (rule round_half_even_below_half)
    then have "real_of_int m \<le> real_of_int (2 ^ 53 - 1)" by (rule of_int_le_iff [THEN iffD2])
    with pe have "real_of_int m * pow2 e \<le> real_of_int (2 ^ 53 - 1) * pow2 e"
      by (simp add: mult_right_mono)
    moreover have "real_of_int (2 ^ 53 - 1) * pow2 971 < pow2 971 * pow2 53"
      using pow2_pos [of 971] by (simp add: pow2_nat algebra_simps)
    ultimately show ?thesis using True \<open>pow2 1024 = pow2 971 * pow2 53\<close> by simp
  next
    case False
    with e have e970: "e + 53 \<le> 1023" by simp
    from e have "k + 1 \<le> e + 53" by simp
    then have "pow2 (k + 1) \<le> pow2 (e + 53)" by (rule pow2_mono)
    with hi have "x < pow2 (e + 53)" by simp
    moreover have p: "pow2 (e + 53) = pow2 e * real_of_int (2 ^ 53)"
      using pow2_add [of e 53] by (simp add: pow2_def)
    ultimately have "x < pow2 e * real_of_int (2 ^ 53)" by simp
    with pe have "q \<le> real_of_int (2 ^ 53)" by (simp add: q_def field_simps)
    then have "m \<le> 2 ^ 53" unfolding m_def by (rule round_half_even_le)
    then have "real_of_int m \<le> real_of_int (2 ^ 53)" by (rule of_int_le_iff [THEN iffD2])
    with pe have "real_of_int m * pow2 e \<le> real_of_int (2 ^ 53) * pow2 e"
      by (simp add: mult_right_mono)
    with p have "real_of_int m * pow2 e \<le> pow2 (e + 53)" by (simp add: mult.commute)
    moreover from e970 have "pow2 (e + 53) \<le> pow2 1023" by (rule pow2_mono)
    moreover have "pow2 1023 < pow2 1024" by (simp add: pow2_def)
    ultimately show ?thesis by linarith
  qed
  with x show ?thesis
    by (simp add: fl_def Let_def e_def m_def q_def)
qed

lemma fl_relative_error:
  assumes lo: "pow2 (- 1022) \<le> x" and below: "x < pow2 1024 - pow2 970"
  shows "\<exists>y. fl x = Fin y \<and> \<bar>y - x\<bar> \<le> x * pow2 (- 53)"
proof -
  from pow2_pos [of "- 1022"] lo have x: "0 < x" by linarith
  define k where "k = ilog2 x"
  define e where "e = k - 52"
  define q where "q = x / pow2 e"
  from ilog2_bounds [OF x] have klo: "pow2 k \<le> x" and khi: "x < pow2 (k + 1)"
    by (simp_all add: k_def)
  from lo khi have "pow2 (- 1022) < pow2 (k + 1)" by simp
  then have "- 1022 < k + 1" by (rule pow2_less_cancel)
  then have "max (- 1074) (ilog2 x - 52) = e" by (simp add: e_def k_def)
  with fl_positive_finite [OF x below]
  have fl: "fl x = Fin (real_of_int (round_half_even q) * pow2 e)"
    by (simp add: q_def)
  have pe: "0 < pow2 e" by (rule pow2_pos)
  then have "pow2 e \<noteq> 0" by (rule less_imp_neq [THEN not_sym])
  then have xq: "x = q * pow2 e" by (simp add: q_def)
  have "\<bar>real_of_int (round_half_even q) * pow2 e - x\<bar> =
        \<bar>real_of_int (round_half_even q) - q\<bar> * pow2 e"
    by (subst xq) (simp add: abs_mult left_diff_distrib [symmetric] abs_of_pos [OF pe])
  also have "\<dots> \<le> 1 / 2 * pow2 e"
    using round_half_even_err [of q] pe by (simp add: mult_right_mono)
  also have "1 / 2 * pow2 e = pow2 k * pow2 (- 53)"
  proof -
    have "pow2 e = pow2 k * pow2 (- 52)" using pow2_add [of k "- 52"] by (simp add: e_def)
    moreover have "pow2 (- 52) = 2 * pow2 (- 53)" by (simp add: pow2_def)
    ultimately show ?thesis by simp
  qed
  also have "\<dots> \<le> x * pow2 (- 53)"
    using klo pow2_pos [of "- 53"] by (simp add: mult_right_mono)
  finally show ?thesis using fl by blast
qed

lemma fl_not_NaN [simp]: "fl x \<noteq> NaN"
  by (simp add: fl_def Let_def)

lemma fl_not_PInf: "x < pow2 1024 - pow2 970 \<Longrightarrow> fl x \<noteq> PInf"
proof (cases "0 < x")
  case True
  assume "x < pow2 1024 - pow2 970"
  with True show ?thesis by (simp add: fl_positive_finite)
next
  case False
  then show ?thesis by (simp add: fl_def Let_def)
qed

lemma fl_nonneg: "0 \<le> x \<Longrightarrow> fl x = PInf \<or> (\<exists>y. fl x = Fin y \<and> 0 \<le> y)"
proof -
  assume x: "0 \<le> x"
  have "0 \<le> real_of_int (round_half_even q) * pow2 e" if "0 \<le> q" for q e
    using that round_half_even_nonneg [of q] less_imp_le [OF pow2_pos [of e]] by simp
  moreover have "0 \<le> \<bar>x\<bar> / pow2 e" for e
    using less_imp_le [OF pow2_pos [of e]] by simp
  ultimately show ?thesis using x
    by (simp add: fl_def Let_def)
qed

text \<open>
  The operators on the special values.
\<close>

lemma js_times_const: "x \<noteq> NaN \<Longrightarrow> c \<noteq> 0 \<Longrightarrow> js_times x (Fin c) \<noteq> NaN"
  by (cases x) simp_all

lemma js_minus_Fin_left: "y \<noteq> NaN \<Longrightarrow> js_minus (Fin a) y \<noteq> NaN"
  by (cases y) simp_all

lemma js_minus_Fin_right: "x \<noteq> NaN \<Longrightarrow> js_minus x (Fin b) \<noteq> NaN"
  by (cases x) simp_all

lemma js_gt_zero: "js_gt r (Fin 0) \<Longrightarrow> r \<noteq> NaN \<and> r \<noteq> Fin 0"
  by (cases r) auto

lemma finite_number_Fin: "finite_number v \<Longrightarrow> \<exists>x. v = Fin x \<and> \<bar>x\<bar> < pow2 1024 - pow2 970"
  by (cases v) (simp_all add: finite_number_def)

section \<open>The normalizer as a lookup\<close>

text \<open>
  The loop throws exactly on the statements with a field that has no text. On any other
  statement with distinct keys the cleaned record holds under each key what the callback
  stores for the value of that key, and nothing under \<open>error\<close> and \<open>__proto__\<close>.
\<close>

lemma cleanEntry_cases:
  "cleanEntry acc (k, v) =
     (if k = ''error'' then Some acc
      else if v = VNoText then None
      else Some (case cleanValue v of
                   None \<Rightarrow> (fst acc, snd acc @ [k])
                 | Some n \<Rightarrow> (assign (fst acc) k n, snd acc)))"
  by (cases v) (simp_all add: cleanEntry_def cleanValue_def Let_def)

lemma forEach_None: "forEach acc s = None \<longleftrightarrow> no_text_field s"
proof (induction s arbitrary: acc)
  case Nil
  show ?case by (simp add: no_text_field_def)
next
  case (Cons e s)
  obtain k v where e: "e = (k, v)" by (cases e)
  show ?case
  proof (cases "k \<noteq> ''error'' \<and> v = VNoText")
    case True
    with e show ?thesis by (simp add: cleanEntry_cases no_text_field_def)
  next
    case False
    then have "cleanEntry acc (k, v) \<noteq> None"
      by (auto simp add: cleanEntry_cases)
    then obtain acc' where "cleanEntry acc (k, v) = Some acc'"
      by blast
    moreover from False e have "no_text_field (e # s) = no_text_field s"
      by (auto simp add: no_text_field_def)
    ultimately show ?thesis using e Cons.IH [of acc'] by simp
  qed
qed

lemma forEach_lookup:
  "distinct (map fst s) \<Longrightarrow> forEach acc s = Some acc' \<Longrightarrow>
   fst acc' k =
     (case map_of s k of
        None \<Rightarrow> fst acc k
      | Some v \<Rightarrow> if k = ''error'' \<or> k = ''__proto__'' then fst acc k
                  else (case cleanValue v of None \<Rightarrow> fst acc k | Some n \<Rightarrow> Some n))"
proof (induction s arbitrary: acc)
  case Nil
  then show ?case by simp
next
  case (Cons e s)
  obtain k' v' where e: "e = (k', v')" by (cases e)
  from Cons.prems e have d: "distinct (map fst s)" and nk: "k' \<notin> fst ` set s" by auto
  from Cons.prems(2) e obtain mid where
    mid: "cleanEntry acc (k', v') = Some mid" and rest: "forEach mid s = Some acc'"
    by (auto split: option.splits)
  note IH = Cons.IH [OF d rest]
  from mid have m: "fst mid k =
      (if k' = ''error'' then fst acc k
       else case cleanValue v' of None \<Rightarrow> fst acc k | Some n \<Rightarrow> assign (fst acc) k' n k)"
    by (auto simp add: cleanEntry_cases split: if_splits option.splits)
  show ?case
  proof (cases "k = k'")
    case True
    with nk have "map_of s k = None" by (simp add: map_of_eq_None_iff)
    with True e IH m show ?thesis
      by (simp add: assign_def split: option.splits)
  next
    case False
    with e IH m show ?thesis
      by (simp add: assign_def split: option.splits)
  qed
qed

lemma cleanedData_None: "cleanedData s = None \<longleftrightarrow> no_text_field s"
  by (simp add: cleanedData_def cleanStatement_def forEach_None)

lemma cleanedData_char:
  assumes "distinct (map fst s)"
  shows "cleanedData s = (if no_text_field s then None else Some (cleanedLookup s))"
proof (cases "no_text_field s")
  case True
  then show ?thesis by (simp add: cleanedData_None)
next
  case False
  then obtain acc' where acc': "forEach (Map.empty, []) s = Some acc'"
    using forEach_None [of "(Map.empty, [])" s] by auto
  have "fst acc' = cleanedLookup s"
  proof
    fix k
    show "fst acc' k = cleanedLookup s k"
      using forEach_lookup [OF assms acc', of k]
      by (simp add: cleanedLookup_def split: option.splits)
  qed
  with acc' False show ?thesis
    by (simp add: cleanedData_def cleanStatement_def)
qed

lemma financialData_char:
  "distinct (map fst s) \<Longrightarrow>
   financialData s =
     (if no_text_field s then None else Some (infer (initialFinancialData (cleanedLookup s))))"
  by (simp add: financialData_def cleanedData_char)

lemma sankeyData_char:
  "distinct (map fst s) \<Longrightarrow>
   sankeyData s =
     (if no_text_field s then None
      else Some \<lparr>nodes = mkNodes (infer (initialFinancialData (cleanedLookup s))),
                 links = mkLinks (infer (initialFinancialData (cleanedLookup s)))\<rparr>)"
  by (simp add: sankeyData_def financialData_char)

lemma sankeyData_None: "sankeyData s = None \<longleftrightarrow> no_text_field s"
  by (simp add: sankeyData_def financialData_def cleanedData_None)

lemma cleanedLookup_entry:
  "distinct (map fst s) \<Longrightarrow> (k, v) \<in> set s \<Longrightarrow>
   cleanedLookup s k = (if k = ''error'' \<or> k = ''__proto__'' then None else cleanValue v)"
  by (simp add: cleanedLookup_def)

section \<open>The fields each rule leaves alone\<close>

lemma rule1_frame:
  "Revenue (rule1 fd) = Revenue fd" "Operating_Expenses (rule1 fd) = Operating_Expenses fd"
  "Operating_Income (rule1 fd) = Operating_Income fd" "Net_Income (rule1 fd) = Net_Income fd"
  by (simp_all add: rule1_def Let_def)

lemma rule2_frame:
  "Revenue (rule2 fd) = Revenue fd" "Cost_of_Revenue (rule2 fd) = Cost_of_Revenue fd"
  "Gross_Profit (rule2 fd) = Gross_Profit fd" "Net_Income (rule2 fd) = Net_Income fd"
  by (simp_all add: rule2_def Let_def)

lemma rule3_frame:
  "Revenue (rule3 fd) = Revenue fd" "Cost_of_Revenue (rule3 fd) = Cost_of_Revenue fd"
  "Gross_Profit (rule3 fd) = Gross_Profit fd"
  "Operating_Expenses (rule3 fd) = Operating_Expenses fd"
  "Operating_Income (rule3 fd) = Operating_Income fd"
  by (simp_all add: rule3_def)

lemma rule4_frame:
  "Gross_Profit (rule4 fd) = Gross_Profit fd"
  "Operating_Expenses (rule4 fd) = Operating_Expenses fd"
  "Operating_Income (rule4 fd) = Operating_Income fd" "Net_Income (rule4 fd) = Net_Income fd"
  by (simp_all add: rule4_def Let_def)

lemma rule5_frame:
  "Revenue (rule5 fd) = Revenue fd" "Cost_of_Revenue (rule5 fd) = Cost_of_Revenue fd"
  "Gross_Profit (rule5 fd) = Gross_Profit fd"
  "Operating_Expenses (rule5 fd) = Operating_Expenses fd" "Net_Income (rule5 fd) = Net_Income fd"
  by (simp_all add: rule5_def)

lemmas rule_frames = rule1_frame rule2_frame rule3_frame rule4_frame rule5_frame

lemma rule1_idle: "\<not> js_gt (Revenue fd) (Fin 0) \<Longrightarrow> rule1 fd = fd"
  by (simp add: rule1_def)

lemma rule4_idle: "\<not> js_eq (Revenue fd) (Fin 0) \<Longrightarrow> rule4 fd = fd"
  by (simp add: rule4_def)

section \<open>Worked examples\<close>

lemma cleanValue_1000: "cleanValue (VStr ''1,000'') = Some (Fin 1000)"
  by (simp add: cleanValue_def isNaN_def parse_eval fl_eval)

lemma cleanValue_600: "cleanValue (VStr ''600'') = Some (Fin 600)"
  by (simp add: cleanValue_def isNaN_def parse_eval fl_eval)

lemma cleanValue_1234: "cleanValue (VStr ''1,234.50'') = Some (Fin 1234.5)"
  by (simp add: cleanValue_def isNaN_def parse_eval fl_eval)

lemma cleanValue_Unknown: "cleanValue (VStr ''Unknown'') = None"
  by (simp add: cleanValue_def)

lemma parseFloat_1234: "parseFloat (strip_non_numeric ''1,234.50'') = Fin 1234.5"
  by (simp add: parse_eval fl_eval)

lemma financialData_example:
  "financialData [(''Revenue'', VStr ''1,000''), (''Cost_of_Revenue'', VStr ''600'')] =
     Some \<lparr>Revenue = Fin 1000, Cost_of_Revenue = Fin 600, Gross_Profit = Fin 400,
            Operating_Expenses = Fin 280, Operating_Income = Fin 120, Net_Income = Fin 90\<rparr>"
proof -
  have "initialFinancialData
          (cleanedLookup [(''Revenue'', VStr ''1,000''), (''Cost_of_Revenue'', VStr ''600'')]) =
        \<lparr>Revenue = Fin 1000, Cost_of_Revenue = Fin 600, Gross_Profit = Fin 0,
         Operating_Expenses = Fin 0, Operating_Income = Fin 0, Net_Income = Fin 0\<rparr>"
    by (simp add: initialFinancialData_def cleanedLookup_def cleanValue_1000 cleanValue_600
          or_zero_def)
  moreover have
    "infer \<lparr>Revenue = Fin 1000, Cost_of_Revenue = Fin 600, Gross_Profit = Fin 0,
            Operating_Expenses = Fin 0, Operating_Income = Fin 0, Net_Income = Fin 0\<rparr> =
     \<lparr>Revenue = Fin 1000, Cost_of_Revenue = Fin 600, Gross_Profit = Fin 400,
      Operating_Expenses = Fin 280, Operating_Income = Fin 120, Net_Income = Fin 90\<rparr>"
    by (simp add: rule_defs fl_eval)
  ultimately show ?thesis by (simp add: financialData_char no_text_field_def)
qed

text \<open>
  Claim C1. For the input \<open>{Revenue: "1,000", Cost_of_Revenue: "600"}\<close> the pipeline
  runs to its end and produces Gross_Profit 400, Operating_Expenses 280, Operating_Income
  120 and Net_Income 90; the five links carry the layout values 600, 400, 280, 120 and
  90, and the \<open>absoluteValue\<close> of each link is the signed field of the financial data.
\<close>

theorem end_to_end_example:
  "financialData [(''Revenue'', VStr ''1,000''), (''Cost_of_Revenue'', VStr ''600'')] =
     Some \<lparr>Revenue = Fin 1000, Cost_of_Revenue = Fin 600, Gross_Profit = Fin 400,
            Operating_Expenses = Fin 280, Operating_Income = Fin 120, Net_Income = Fin 90\<rparr> \<and>
   map_option links
     (sankeyData [(''Revenue'', VStr ''1,000''), (''Cost_of_Revenue'', VStr ''600'')]) =
     Some [\<lparr>source = 0, target = 1, link_value = Fin 600, absoluteValue = Fin 600\<rparr>,
           \<lparr>source = 0, target = 2, link_value = Fin 400, absoluteValue = Fin 400\<rparr>,
           \<lparr>source = 2, target = 3, link_value = Fin 280, absoluteValue = Fin 280\<rparr>,
           \<lparr>source = 2, target = 4, link_value = Fin 120, absoluteValue = Fin 120\<rparr>,
           \<lparr>source = 4, target = 5, link_value = Fin 90, absoluteValue = Fin 90\<rparr>] \<and>
   map_option (\<lambda>g. map absoluteValue (links g))
     (sankeyData [(''Revenue'', VStr ''1,000''), (''Cost_of_Revenue'', VStr ''600'')]) =
   map_option
     (\<lambda>fd. [Cost_of_Revenue fd, Gross_Profit fd, Operating_Expenses fd, Operating_Income fd,
            Net_Income fd])
     (financialData [(''Revenue'', VStr ''1,000''), (''Cost_of_Revenue'', VStr ''600'')])"
  by (simp add: sankeyData_def mkLinks_def financialData_example minFlowValue_def Math_max_def)

text \<open>
  Claim C8. For the input \<open>{Net_Income: -50}\<close> inference sets Operating_Income to
  exactly \<open>-62.5\<close>, and the link from Operating Income to Net Income carries the
  \<open>absoluteValue\<close> \<open>-50\<close> and the layout value 50.
\<close>

theorem net_income_example:
  "map_option Operating_Income (financialData [(''Net_Income'', VNum (Fin (- 50)))]) =
     Some (Fin (- 62.5)) \<and>
   map_option (\<lambda>g. links g ! 4) (sankeyData [(''Net_Income'', VNum (Fin (- 50)))]) =
     Some \<lparr>source = 4, target = 5, link_value = Fin 50, absoluteValue = Fin (- 50)\<rparr>"
proof -
  have "initialFinancialData (cleanedLookup [(''Net_Income'', VNum (Fin (- 50)))]) =
        \<lparr>Revenue = Fin 0, Cost_of_Revenue = Fin 0, Gross_Profit = Fin 0,
         Operating_Expenses = Fin 0, Operating_Income = Fin 0, Net_Income = Fin (- 50)\<rparr>"
    by (simp add: initialFinancialData_def cleanedLookup_def cleanValue_def or_zero_def)
  moreover have
    "infer \<lparr>Revenue = Fin 0, Cost_of_Revenue = Fin 0, Gross_Profit = Fin 0,
            Operating_Expenses = Fin 0, Operating_Income = Fin 0, Net_Income = Fin (- 50)\<rparr> =
     \<lparr>Revenue = Fin 0, Cost_of_Revenue = Fin 0, Gross_Profit = Fin 0,
      Operating_Expenses = Fin 0, Operating_Income = Fin (- 62.5), Net_Income = Fin (- 50)\<rparr>"
    by (simp add: rule_defs fl_eval)
  ultimately have
    "financialData [(''Net_Income'', VNum (Fin (- 50)))] =
     Some \<lparr>Revenue = Fin 0, Cost_of_Revenue = Fin 0, Gross_Profit = Fin 0,
      Operating_Expenses = Fin 0, Operating_Income = Fin (- 62.5), Net_Income = Fin (- 50)\<rparr>"
    by (simp add: financialData_char no_text_field_def)
  then show ?thesis
    by (simp add: sankeyData_def mkLinks_def minFlowValue_def Math_max_def)
qed

text \<open>
  Claim C9. The normalizer parses the string \<open>"1,234.50"\<close> to the number 1234.5: the
  statement with that Revenue is cleaned to the record with Revenue 1234.5, and so is the
  field under any key but \<open>error\<close> and \<open>__proto__\<close> of any statement that the loop gets
  through. A field whose value is the string \<open>"Unknown"\<close> is absent from the cleaned
  record.
\<close>

theorem normalizer_parses_and_excludes:
  "cleanedData [(''Revenue'', VStr ''1,234.50'')] = Some [''Revenue'' \<mapsto> Fin 1234.5] \<and>
   (distinct (map fst s) \<and> cleanedData s = Some cd \<and> (k, VStr ''1,234.50'') \<in> set s \<and>
    k \<noteq> ''error'' \<and> k \<noteq> ''__proto__'' \<longrightarrow> cd k = Some (Fin 1234.5)) \<and>
   (distinct (map fst s) \<and> cleanedData s = Some cd \<and> (k, VStr ''Unknown'') \<in> set s
      \<longrightarrow> cd k = None)"
proof -
  have "cleanedData [(''Revenue'', VStr ''1,234.50'')] = Some [''Revenue'' \<mapsto> Fin 1234.5]"
    by (simp add: cleanedData_def cleanStatement_def cleanEntry_def assign_def
          parseFloat_1234 isNaN_def)
  moreover have "cd = cleanedLookup s" if "distinct (map fst s)" "cleanedData s = Some cd"
    using that by (simp add: cleanedData_char split: if_splits)
  ultimately show ?thesis
    by (auto simp add: cleanedLookup_entry cleanValue_1234 cleanValue_Unknown)
qed

theorem normalizer_parses_and_excludes_witness:
  "cleanedData [(''Revenue'', VStr ''1,234.50''), (''Net_Income'', VStr ''Unknown'')] =
     Some [''Revenue'' \<mapsto> Fin 1234.5] \<and>
   [''Revenue'' \<mapsto> Fin 1234.5] ''Revenue'' = Some (Fin 1234.5) \<and>
   [''Revenue'' \<mapsto> Fin 1234.5] ''Net_Income'' = None"
proof -
  have c: "cleanedData [(''Revenue'', VStr ''1,234.50''), (''Net_Income'', VStr ''Unknown'')] =
        Some [''Revenue'' \<mapsto> Fin 1234.5]"
    by (simp add: cleanedData_def cleanStatement_def cleanEntry_def assign_def
          parseFloat_1234 isNaN_def)
  with normalizer_parses_and_excludes
         [of "[(''Revenue'', VStr ''1,234.50''), (''Net_Income'', VStr ''Unknown'')]"
             "[''Revenue'' \<mapsto> Fin 1234.5]" "''Revenue''"]
       normalizer_parses_and_excludes
         [of "[(''Revenue'', VStr ''1,234.50''), (''Net_Income'', VStr ''Unknown'')]"
             "[''Revenue'' \<mapsto> Fin 1234.5]" "''Net_Income''"]
  show ?thesis by simp
qed

section \<open>Keys outside the six fields\<close>

lemma initialFinancialData_cong:
  "(\<And>k. k \<in> set financial_fields \<Longrightarrow> or_zero (cd1 k) = or_zero (cd2 k)) \<Longrightarrow>
   initialFinancialData cd1 = initialFinancialData cd2"
  by (simp add: initialFinancialData_def financial_fields_def)

lemma error_not_financial: "k \<in> set financial_fields \<Longrightarrow> k \<noteq> ''error''"
  by (auto simp add: financial_fields_def)

text \<open>
  A field value that has no text makes the effect set the failure message and keep the
  graph it had; the failure panel is what the component then shows.
\<close>

lemma no_text_sets_failure:
  "no_text_field stmt \<Longrightarrow>
   effect (Some stmt) st = st\<lparr>error := Some failureMessage\<rparr> \<and>
   render (effect (Some stmt) st) = FailurePanel failureMessage"
  by (simp add: effect_def render_def sankeyData_None [THEN iffD2])

text \<open>
  As long as every field value of both statements has a text, the keys outside the six
  fields do not matter: statements that agree on the six fields produce the same graph
  and leave the component in the same state.
\<close>

lemma fields_determine_graph:
  assumes "distinct (map fst s1)" and "distinct (map fst s2)"
    and "\<not> no_text_field s1" and "\<not> no_text_field s2"
    and "\<forall>k \<in> set financial_fields. map_of s1 k = map_of s2 k"
  shows "sankeyData s1 = sankeyData s2 \<and> effect (Some s1) st = effect (Some s2) st"
proof -
  have "initialFinancialData (cleanedLookup s1) = initialFinancialData (cleanedLookup s2)"
  proof (rule initialFinancialData_cong)
    fix k assume "k \<in> set financial_fields"
    with assms(5) show "or_zero (cleanedLookup s1 k) = or_zero (cleanedLookup s2 k)"
      by (simp add: cleanedLookup_def)
  qed
  with assms(1-4) have "sankeyData s1 = sankeyData s2"
    by (simp add: sankeyData_char)
  then show ?thesis
    by (simp add: effect_def)
qed

text \<open>
  Claim C7: keys outside the six fields never influence the graph. The logging of line
  71 breaks this for a value that has no text. The statements
  \<open>{Revenue: 100, meta: {"toString": 1}}\<close> and \<open>{Revenue: 100}\<close> agree on the six
  fields; the second produces a graph, which is shown as the chart, and the first
  produces none: its effect sets the failure message, and the failure panel is shown.
\<close>

theorem extra_key_breaks_graph:
  "list_all (\<lambda>k. map_of [(''Revenue'', VNum (Fin 100)), (''meta'', VNoText)] k =
                 map_of [(''Revenue'', VNum (Fin 100))] k) financial_fields \<and>
   sankeyData [(''Revenue'', VNum (Fin 100)), (''meta'', VNoText)] = None \<and>
   render (effect (Some [(''Revenue'', VNum (Fin 100)), (''meta'', VNoText)]) initialState) =
     FailurePanel failureMessage \<and>
   (\<exists>g. sankeyData [(''Revenue'', VNum (Fin 100))] = Some g \<and>
        render (effect (Some [(''Revenue'', VNum (Fin 100))]) initialState) = Chart g)"
proof -
  have "list_all (\<lambda>k. map_of [(''Revenue'', VNum (Fin 100)), (''meta'', VNoText)] k =
                 map_of [(''Revenue'', VNum (Fin 100))] k) financial_fields"
    by (simp add: financial_fields_def)
  moreover have n: "no_text_field [(''Revenue'', VNum (Fin 100)), (''meta'', VNoText)]"
    by (simp add: no_text_field_def)
  moreover have "\<not> no_text_field [(''Revenue'', VNum (Fin 100))]"
    by (simp add: no_text_field_def)
  then have "\<exists>g. sankeyData [(''Revenue'', VNum (Fin 100))] = Some g \<and>
        render (effect (Some [(''Revenue'', VNum (Fin 100))]) initialState) = Chart g"
    by (simp add: sankeyData_char effect_def render_def initialState_def)
  ultimately show ?thesis
    by (simp add: sankeyData_None no_text_sets_failure render_def)
qed

section \<open>A zero field and an absent field\<close>

text \<open>
  An entry under a fresh key, put anywhere among the entries.
\<close>

lemma map_of_insert_fresh:
  "k \<notin> fst ` set xs \<Longrightarrow>
   map_of (xs @ (k, v) # ys) k' = (if k' = k then Some v else map_of (xs @ ys) k')"
  by (induction xs) auto

text \<open>
  Claim C10. A statement that gives a field the numeric value 0 produces exactly the
  graph of the statement without that field: a cleaned 0 and an absent key are the same
  to defaulting, inference and graph construction. This holds for any key, the six
  financial fields among them, and any position of the entry.
\<close>

theorem zero_field_same_as_absent:
  assumes "distinct (map fst (xs @ ys))" and "k \<notin> fst ` set (xs @ ys)"
  shows "sankeyData (xs @ (k, VNum (Fin 0)) # ys) = sankeyData (xs @ ys)"
proof -
  from assms have d: "distinct (map fst (xs @ (k, VNum (Fin 0)) # ys))"
    by (auto simp add: image_Un)
  from assms have none: "map_of (xs @ ys) k = None"
    by (simp add: map_of_eq_None_iff image_Un del: map_of_append)
  from assms have look: "map_of (xs @ (k, VNum (Fin 0)) # ys) k' =
              (if k' = k then Some (VNum (Fin 0)) else map_of (xs @ ys) k')" for k'
    by (simp add: map_of_insert_fresh image_Un del: map_of_append)
  have same_text: "no_text_field (xs @ (k, VNum (Fin 0)) # ys) = no_text_field (xs @ ys)"
    by (simp add: no_text_field_def)
  have "initialFinancialData (cleanedLookup (xs @ (k, VNum (Fin 0)) # ys)) =
        initialFinancialData (cleanedLookup (xs @ ys))"
  proof (rule initialFinancialData_cong)
    fix k'
    show "or_zero (cleanedLookup (xs @ (k, VNum (Fin 0)) # ys) k') =
          or_zero (cleanedLookup (xs @ ys) k')"
      unfolding cleanedLookup_def look
      using none by (simp add: cleanValue_def or_zero_def del: map_of_append)
  qed
  then show ?thesis
    by (simp add: sankeyData_char [OF d] sankeyData_char [OF assms(1)] same_text)
qed

theorem zero_field_same_as_absent_witness:
  "sankeyData [(''Revenue'', VNum (Fin 100)), (''Net_Income'', VNum (Fin 0)),
               (''Gross_Profit'', VStr ''40'')] =
   sankeyData [(''Revenue'', VNum (Fin 100)), (''Gross_Profit'', VStr ''40'')]"
  using zero_field_same_as_absent
          [of "[(''Revenue'', VNum (Fin 100))]" "[(''Gross_Profit'', VStr ''40'')]"
              "''Net_Income''"]
  by simp

section \<open>Rule 1 and rule 4\<close>

lemma rule4_fires_Revenue:
  "rule4_fires (rule3 (rule2 (rule1 fd))) \<Longrightarrow> Revenue fd = Fin 0"
  by (simp add: rule4_fires_def js_eq_def rule_frames)

text \<open>
  Claim C5, as stated: some input makes rule 4 overwrite a Cost_of_Revenue that rule 1 set
  earlier in the same run. No input does: rule 1 assigns only when Revenue is positive,
  rule 4 only when Revenue equals zero, and rules 1 to 3 leave Revenue as it is.
\<close>

theorem rule4_never_overwrites_rule1:
  "\<not> (\<exists>s cd. cleanedData s = Some cd \<and> rule1_sets_cost (initialFinancialData cd) \<and>
          rule4_fires (rule3 (rule2 (rule1 (initialFinancialData cd)))))"
proof
  assume "\<exists>s cd. cleanedData s = Some cd \<and> rule1_sets_cost (initialFinancialData cd) \<and>
          rule4_fires (rule3 (rule2 (rule1 (initialFinancialData cd))))"
  then obtain cd where
    one: "rule1_sets_cost (initialFinancialData cd)" and
    four: "rule4_fires (rule3 (rule2 (rule1 (initialFinancialData cd))))"
    by blast
  from four have "Revenue (initialFinancialData cd) = Fin 0"
    by (rule rule4_fires_Revenue)
  with one show False
    by (simp add: rule1_sets_cost_def)
qed

text \<open>
  Claim C5, amended. Whenever rule 4 fires, rule 1 has changed nothing, so the
  Cost_of_Revenue that rule 4 overwrites is the one the defaulting produced: the value
  given in the input, or 0. The input \<open>{Gross_Profit: 100, Cost_of_Revenue: 30}\<close> is
  such a run: rule 4 replaces the given 30 by 50.
\<close>

theorem rule4_overwrites_only_input_cost:
  "(rule4_fires (rule3 (rule2 (rule1 fd))) \<longrightarrow>
      \<not> rule1_sets_cost fd \<and> rule1 fd = fd \<and>
      Cost_of_Revenue (rule3 (rule2 (rule1 fd))) = Cost_of_Revenue fd) \<and>
   (\<exists>fd0. map_option initialFinancialData
            (cleanedData [(''Gross_Profit'', VNum (Fin 100)),
                          (''Cost_of_Revenue'', VNum (Fin 30))]) = Some fd0 \<and>
          rule4_fires (rule3 (rule2 (rule1 fd0))) \<and> Cost_of_Revenue fd0 = Fin 30 \<and>
          Cost_of_Revenue (infer fd0) = Fin 50)"
proof -
  have "\<not> rule1_sets_cost fd \<and> rule1 fd = fd \<and>
        Cost_of_Revenue (rule3 (rule2 (rule1 fd))) = Cost_of_Revenue fd"
    if "rule4_fires (rule3 (rule2 (rule1 fd)))"
  proof -
    from that have "Revenue fd = Fin 0" by (rule rule4_fires_Revenue)
    then have "\<not> js_gt (Revenue fd) (Fin 0)" by simp
    then show ?thesis by (simp add: rule1_idle rule1_sets_cost_def rule_frames)
  qed
  moreover have
    "initialFinancialData
       (cleanedLookup [(''Gross_Profit'', VNum (Fin 100)), (''Cost_of_Revenue'', VNum (Fin 30))]) =
     \<lparr>Revenue = Fin 0, Cost_of_Revenue = Fin 30, Gross_Profit = Fin 100,
      Operating_Expenses = Fin 0, Operating_Income = Fin 0, Net_Income = Fin 0\<rparr>"
    by (simp add: initialFinancialData_def cleanedLookup_def cleanValue_def or_zero_def)
  moreover have
    "rule3 (rule2 (rule1 \<lparr>Revenue = Fin 0, Cost_of_Revenue = Fin 30, Gross_Profit = Fin 100,
      Operating_Expenses = Fin 0, Operating_Income = Fin 0, Net_Income = Fin 0\<rparr>)) =
     \<lparr>Revenue = Fin 0, Cost_of_Revenue = Fin 30, Gross_Profit = Fin 100,
      Operating_Expenses = Fin 70, Operating_Income = Fin 30, Net_Income = Fin 22.5\<rparr>"
    by (simp add: rule_defs fl_eval)
  moreover have
    "infer \<lparr>Revenue = Fin 0, Cost_of_Revenue = Fin 30, Gross_Profit = Fin 100,
      Operating_Expenses = Fin 0, Operating_Income = Fin 0, Net_Income = Fin 0\<rparr> =
     \<lparr>Revenue = Fin 150, Cost_of_Revenue = Fin 50, Gross_Profit = Fin 100,
      Operating_Expenses = Fin 70, Operating_Income = Fin 30, Net_Income = Fin 22.5\<rparr>"
    by (simp add: rule_defs fl_eval)
  ultimately show ?thesis
    by (simp add: rule4_fires_def js_eq_def cleanedData_char no_text_field_def)
qed

theorem rule4_overwrites_only_input_cost_witness:
  "rule4_fires (rule3 (rule2 (rule1
     \<lparr>Revenue = Fin 0, Cost_of_Revenue = Fin 30, Gross_Profit = Fin 100,
      Operating_Expenses = Fin 0, Operating_Income = Fin 0, Net_Income = Fin 0\<rparr>))) \<and>
   rule1 \<lparr>Revenue = Fin 0, Cost_of_Revenue = Fin 30, Gross_Profit = Fin 100,
      Operating_Expenses = Fin 0, Operating_Income = Fin 0, Net_Income = Fin 0\<rparr> =
     \<lparr>Revenue = Fin 0, Cost_of_Revenue = Fin 30, Gross_Profit = Fin 100,
      Operating_Expenses = Fin 0, Operating_Income = Fin 0, Net_Income = Fin 0\<rparr> \<and>
   Cost_of_Revenue (rule3 (rule2 (rule1
     \<lparr>Revenue = Fin 0, Cost_of_Revenue = Fin 30, Gross_Profit = Fin 100,
      Operating_Expenses = Fin 0, Operating_Income = Fin 0, Net_Income = Fin 0\<rparr>))) = Fin 30"
proof -
  have fires: "rule4_fires (rule3 (rule2 (rule1
     \<lparr>Revenue = Fin 0, Cost_of_Revenue = Fin 30, Gross_Profit = Fin 100,
      Operating_Expenses = Fin 0, Operating_Income = Fin 0, Net_Income = Fin 0\<rparr>)))"
    by (simp add: rule4_fires_def rule_defs fl_eval)
  with rule4_overwrites_only_input_cost
         [of "\<lparr>Revenue = Fin 0, Cost_of_Revenue = Fin 30, Gross_Profit = Fin 100,
      Operating_Expenses = Fin 0, Operating_Income = Fin 0, Net_Income = Fin 0\<rparr>"]
  show ?thesis by (simp add: rule_frames)
qed

section \<open>The null statement\<close>

text \<open>
  Claim C3, as stated: a null statement surfaces a failure state and no graph. On a null
  statement the effect sets no error: from the initial state the component shows the
  preparing panel, not the failure panel, and after an earlier statement it goes on
  showing the graph built from that one.
\<close>

theorem null_input_sets_no_failure:
  "error (effect None initialState) = None \<and>
   render (effect None initialState) = PreparingPanel \<and>
   (\<exists>g. sankeyData [] = Some g \<and>
        render (effect None (effect (Some []) initialState)) = Chart g)"
  by (simp add: effect_def initialState_def render_def sankeyData_char no_text_field_def)

text \<open>
  Claim C3, amended. A null statement leaves the state of the component as it was, so
  that run produces no graph and sets no failure; from the initial state the preparing
  panel is shown. Every statement that is not null, however sparse, whose field values
  outside the \<open>error\<close> key all have a text, produces a graph of six nodes and five
  links; the effect stores it, clears the error, and the chart of that graph is shown.
\<close>

theorem null_input_leaves_state:
  "effect None st = st \<and>
   render (effect None initialState) = PreparingPanel \<and>
   (\<not> no_text_field stmt \<longrightarrow>
      (\<exists>g. sankeyData stmt = Some g \<and> length (nodes g) = 6 \<and> length (links g) = 5 \<and>
           effect (Some stmt) st = st\<lparr>data := Some g, error := None\<rparr> \<and>
           render (effect (Some stmt) st) = Chart g))"
proof -
  have "\<exists>g. sankeyData stmt = Some g \<and> length (nodes g) = 6 \<and> length (links g) = 5 \<and>
           effect (Some stmt) st = st\<lparr>data := Some g, error := None\<rparr> \<and>
           render (effect (Some stmt) st) = Chart g"
    if "\<not> no_text_field stmt"
  proof -
    from that obtain g where g: "sankeyData stmt = Some g"
      using sankeyData_None [of stmt] by auto
    then have "length (nodes g) = 6 \<and> length (links g) = 5"
      by (auto simp add: sankeyData_def mkNodes_def mkLinks_def Let_def)
    with g show ?thesis
      by (simp add: effect_def render_def)
  qed
  then show ?thesis
    by (simp add: effect_def initialState_def render_def)
qed

theorem null_input_leaves_state_witness:
  "\<not> no_text_field [(''Revenue'', VStr ''Unknown''), (''visualization_data'', VOther)] \<and>
   (\<exists>g. sankeyData [(''Revenue'', VStr ''Unknown''), (''visualization_data'', VOther)] = Some g \<and>
        length (nodes g) = 6 \<and> length (links g) = 5 \<and>
        effect (Some [(''Revenue'', VStr ''Unknown''), (''visualization_data'', VOther)])
          initialState = \<lparr>data = Some g, error = None\<rparr> \<and>
        render (effect (Some [(''Revenue'', VStr ''Unknown''), (''visualization_data'', VOther)])
          initialState) = Chart g)"
  using null_input_leaves_state
          [of initialState "[(''Revenue'', VStr ''Unknown''), (''visualization_data'', VOther)]"]
  by (simp add: no_text_field_def initialState_def)

section \<open>Numbers that are not finite\<close>

lemma fl_overflow: "fl (10 ^ 309) = PInf"
proof (rule fl_overflow_ge)
  have "(2::real) ^ 1024 \<le> 10 ^ 309" by simp
  then show "pow2 1024 \<le> 10 ^ 309" by (simp add: pow2_def)
qed

lemma digits_value_zeros:
  "foldl (\<lambda>n c. 10 * n + (of_char c - 48)) (a :: int) (replicate n (CHR ''0'')) = a * 10 ^ n"
  by (induction n arbitrary: a) simp_all

lemma parseFloat_one_zeros:
  "parseFloat (strip_non_numeric (CHR ''1'' # replicate n (CHR ''0''))) = fl (10 ^ n)"
  by (simp add: parse_eval digits_value_zeros)

lemma parseFloat_overflow:
  "parseFloat (strip_non_numeric (CHR ''1'' # replicate 309 (CHR ''0''))) = PInf"
  by (simp only: parseFloat_one_zeros fl_overflow)

lemma cleanValue_overflow:
  "cleanValue (VStr (CHR ''1'' # replicate 309 (CHR ''0''))) = Some PInf"
  by (simp add: cleanValue_def parseFloat_overflow isNaN_def)

text \<open>
  Claim C6, as stated: every value of the cleaned record is a finite number. A number of
  the input is stored as it is, NaN and the infinities included, and a string of 310
  digits (1 followed by 309 zeros) parses to infinity, which is not NaN and is stored.
\<close>

theorem nonfinite_values_are_stored:
  "cleanedData [(''Revenue'', VNum NaN)] = Some [''Revenue'' \<mapsto> NaN] \<and>
   cleanedData [(''Revenue'', VNum PInf)] = Some [''Revenue'' \<mapsto> PInf] \<and>
   cleanedData [(''Revenue'', VStr (CHR ''1'' # replicate 309 (CHR ''0'')))] =
     Some [''Revenue'' \<mapsto> PInf]"
  by (simp add: cleanedData_def cleanStatement_def cleanEntry_def assign_def
        parseFloat_overflow isNaN_def)

text \<open>
  Claim C6, amended. For a statement with distinct keys that the loop gets through, a
  value present in the cleaned record under a key belongs to a field of the statement,
  other than \<open>error\<close> and \<open>__proto__\<close>, that is a number or a string: for a number it
  is that number unchanged, whatever it is; for a string it is the parse of the stripped
  string, the string is not \<open>"Unknown"\<close>, and the value is not NaN.
\<close>

theorem cleaned_values_origin:
  "distinct (map fst s) \<and> cleanedData s = Some cd \<and> cd k = Some v \<longrightarrow>
     k \<noteq> ''error'' \<and> k \<noteq> ''__proto__'' \<and> k \<in> fst ` set s \<and>
     (k, VOther) \<notin> set s \<and> (k, VNoText) \<notin> set s \<and>
     (\<forall>n. (k, VNum n) \<in> set s \<longrightarrow> v = n) \<and>
     (\<forall>t. (k, VStr t) \<in> set s \<longrightarrow>
        t \<noteq> ''Unknown'' \<and> v = parseFloat (strip_non_numeric t) \<and> v \<noteq> NaN)"
proof
  assume a: "distinct (map fst s) \<and> cleanedData s = Some cd \<and> cd k = Some v"
  then have d: "distinct (map fst s)" and cd: "cleanedData s = Some cd" and "cd k = Some v"
    by simp_all
  then have c: "cleanedLookup s k = Some v"
    by (simp add: cleanedData_char split: if_splits)
  then have k: "k \<noteq> ''error''" "k \<noteq> ''__proto__''"
    by (auto simp add: cleanedLookup_def split: if_splits)
  from c k obtain x where x: "map_of s k = Some x" and cv: "cleanValue x = Some v"
    by (auto simp add: cleanedLookup_def Option.bind_eq_Some_conv)
  have same: "y = x" if "(k, y) \<in> set s" for y
    using that d x by simp
  from x have "k \<in> fst ` set s"
    by (metis map_of_eq_None_iff option.distinct(1))
  moreover have "(k, VOther) \<notin> set s" "(k, VNoText) \<notin> set s"
    using same cv by (auto simp add: cleanValue_def)
  moreover have "\<forall>n. (k, VNum n) \<in> set s \<longrightarrow> v = n"
    using same cv by (auto simp add: cleanValue_def)
  moreover have "\<forall>t. (k, VStr t) \<in> set s \<longrightarrow>
        t \<noteq> ''Unknown'' \<and> v = parseFloat (strip_non_numeric t) \<and> v \<noteq> NaN"
    using same cv by (auto simp add: cleanValue_def isNaN_def split: if_splits)
  ultimately show "k \<noteq> ''error'' \<and> k \<noteq> ''__proto__'' \<and> k \<in> fst ` set s \<and>
     (k, VOther) \<notin> set s \<and> (k, VNoText) \<notin> set s \<and>
     (\<forall>n. (k, VNum n) \<in> set s \<longrightarrow> v = n) \<and>
     (\<forall>t. (k, VStr t) \<in> set s \<longrightarrow>
        t \<noteq> ''Unknown'' \<and> v = parseFloat (strip_non_numeric t) \<and> v \<noteq> NaN)"
    using k by blast
qed

theorem cleaned_values_origin_witness:
  "cleanedData [(''Revenue'', VStr ''1,234.50''), (''Net_Income'', VNum NInf)] =
     Some [''Revenue'' \<mapsto> Fin 1234.5, ''Net_Income'' \<mapsto> NInf] \<and>
   [''Revenue'' \<mapsto> Fin 1234.5, ''Net_Income'' \<mapsto> NInf] ''Revenue'' = Some (Fin 1234.5) \<and>
   Fin 1234.5 = parseFloat (strip_non_numeric ''1,234.50'') \<and> Fin 1234.5 \<noteq> NaN"
proof -
  have c: "cleanedData [(''Revenue'', VStr ''1,234.50''), (''Net_Income'', VNum NInf)] =
     Some [''Revenue'' \<mapsto> Fin 1234.5, ''Net_Income'' \<mapsto> NInf]"
    by (simp add: cleanedData_def cleanStatement_def cleanEntry_def assign_def
          parseFloat_1234 isNaN_def)
  with cleaned_values_origin
         [of "[(''Revenue'', VStr ''1,234.50''), (''Net_Income'', VNum NInf)]"
             "[''Revenue'' \<mapsto> Fin 1234.5, ''Net_Income'' \<mapsto> NInf]" "''Revenue''"
             "Fin 1234.5"]
  show ?thesis by (simp add: parseFloat_1234)
qed

section \<open>The floor of the layout values\<close>

text \<open>
  The clamping reaches the floor for every field that is not NaN, and inference produces
  no NaN from finite numbers: the only subtraction of two values that rule 1 to 5 may
  both have computed is that of rule 2, and there the Gross_Profit of rule 1 is at most
  the finite Revenue.
\<close>

lemma floor_unless_NaN: "x \<noteq> NaN \<Longrightarrow> at_least_floor (Math_max minFlowValue (Math_abs x))"
  by (cases x) (auto simp add: at_least_floor_def Math_max_def minFlowValue_def js_eq_def)

lemma links_floor_unless_NaN:
  "Cost_of_Revenue fd \<noteq> NaN \<Longrightarrow> Gross_Profit fd \<noteq> NaN \<Longrightarrow> Operating_Expenses fd \<noteq> NaN \<Longrightarrow>
   Operating_Income fd \<noteq> NaN \<Longrightarrow> Net_Income fd \<noteq> NaN \<Longrightarrow>
   l \<in> set (mkLinks fd) \<Longrightarrow> at_least_floor (link_value l)"
  by (auto simp add: mkLinks_def Let_def floor_unless_NaN)

lemma gross_from_rule1:
  assumes r: "\<bar>r\<bar> < pow2 1024 - pow2 970" and c: "c = PInf \<or> (\<exists>y. c = Fin y \<and> 0 \<le> y)"
  shows "js_minus (Fin r) c \<noteq> NaN \<and> js_minus (Fin r) c \<noteq> PInf"
proof -
  from c show ?thesis
  proof
    assume "c = PInf"
    then show ?thesis by simp
  next
    assume "\<exists>y. c = Fin y \<and> 0 \<le> y"
    then obtain y where y: "c = Fin y" "0 \<le> y" by blast
    with r have "r - y < pow2 1024 - pow2 970" by linarith
    then have "fl (r - y) \<noteq> PInf" by (rule fl_not_PInf)
    with y show ?thesis by simp
  qed
qed

lemma rule1_no_NaN:
  assumes "finite_number (Revenue fd)" and "finite_number (Cost_of_Revenue fd)"
    and "finite_number (Gross_Profit fd)"
  shows "Cost_of_Revenue (rule1 fd) \<noteq> NaN \<and> Gross_Profit (rule1 fd) \<noteq> NaN \<and>
         Gross_Profit (rule1 fd) \<noteq> PInf"
proof -
  from assms obtain r c g where
    r: "Revenue fd = Fin r" "\<bar>r\<bar> < pow2 1024 - pow2 970" and
    c: "Cost_of_Revenue fd = Fin c" and g: "Gross_Profit fd = Fin g"
    by (blast dest: finite_number_Fin)
  have given: "js_minus (Fin r) (Fin c) \<noteq> NaN \<and> js_minus (Fin r) (Fin c) \<noteq> PInf" if "0 < c"
    using r(2) that by (intro gross_from_rule1) auto
  have "0 \<le> r * (5854679515581645 / 2 ^ 53)" if "0 < r"
    using that by simp
  then have "fl (r * (5854679515581645 / 2 ^ 53)) = PInf \<or>
             (\<exists>y. fl (r * (5854679515581645 / 2 ^ 53)) = Fin y \<and> 0 \<le> y)" if "0 < r"
    using that by (intro fl_nonneg) simp
  then have est:
    "js_minus (Fin r) (fl (r * (5854679515581645 / 2 ^ 53))) \<noteq> NaN \<and>
     js_minus (Fin r) (fl (r * (5854679515581645 / 2 ^ 53))) \<noteq> PInf" if "0 < r"
    using r(2) that by (intro gross_from_rule1) auto
  show ?thesis
    unfolding rule1_def fl_065 using given est
    by (simp add: r c g js_eq_def Let_def)
qed

lemma rule2_no_NaN:
  assumes "Gross_Profit fd \<noteq> NaN" and "Gross_Profit fd \<noteq> PInf"
    and "finite_number (Operating_Expenses fd)" and "finite_number (Operating_Income fd)"
  shows "Operating_Expenses (rule2 fd) \<noteq> NaN \<and> Operating_Income (rule2 fd) \<noteq> NaN"
proof -
  from assms obtain e i where
    e: "Operating_Expenses fd = Fin e" and i: "Operating_Income fd = Fin i"
    by (blast dest: finite_number_Fin)
  show ?thesis
  proof (cases "js_gt (Gross_Profit fd) (Fin 0)")
    case False
    then show ?thesis by (simp add: rule2_def e i)
  next
    case True
    with assms obtain g where g: "Gross_Profit fd = Fin g"
      by (cases "Gross_Profit fd") simp_all
    show ?thesis
      unfolding rule2_def fl_constants
      by (simp add: e i g js_eq_def Let_def js_minus_Fin_left)
  qed
qed

lemma rule3_no_NaN:
  "Operating_Income fd \<noteq> NaN \<Longrightarrow> Net_Income fd \<noteq> NaN \<Longrightarrow> Net_Income (rule3 fd) \<noteq> NaN"
  unfolding rule3_def fl_constants by (simp add: js_times_const)

lemma rule4_no_NaN:
  assumes "Cost_of_Revenue fd \<noteq> NaN" and "Gross_Profit fd \<noteq> NaN" and "Gross_Profit fd \<noteq> PInf"
  shows "Cost_of_Revenue (rule4 fd) \<noteq> NaN"
proof (cases "js_gt (Gross_Profit fd) (Fin 0)")
  case False
  with assms show ?thesis by (simp add: rule4_def)
next
  case True
  with assms obtain g where g: "Gross_Profit fd = Fin g"
    by (cases "Gross_Profit fd") simp_all
  with assms show ?thesis
    unfolding rule4_def fl_constants
    by (simp add: Let_def js_minus_Fin_right)
qed

lemma rule5_no_NaN:
  "Operating_Income fd \<noteq> NaN \<Longrightarrow> Net_Income fd \<noteq> NaN \<Longrightarrow>
   Operating_Income (rule5 fd) \<noteq> NaN"
  unfolding rule5_def fl_constants by (simp add: js_times_const)

lemma infer_no_NaN:
  assumes "finite_number (Revenue fd)" and "finite_number (Cost_of_Revenue fd)"
    and "finite_number (Gross_Profit fd)" and "finite_number (Operating_Expenses fd)"
    and "finite_number (Operating_Income fd)" and "finite_number (Net_Income fd)"
  shows "Cost_of_Revenue (infer fd) \<noteq> NaN \<and> Gross_Profit (infer fd) \<noteq> NaN \<and>
         Operating_Expenses (infer fd) \<noteq> NaN \<and> Operating_Income (infer fd) \<noteq> NaN \<and>
         Net_Income (infer fd) \<noteq> NaN"
proof -
  define f1 where "f1 = rule1 fd"
  define f2 where "f2 = rule2 f1"
  define f3 where "f3 = rule3 f2"
  define f4 where "f4 = rule4 f3"
  from assms(6) have net: "Net_Income fd \<noteq> NaN" by (auto dest: finite_number_Fin)
  from rule1_no_NaN [OF assms(1-3)]
  have c1: "Cost_of_Revenue f1 \<noteq> NaN" and g1: "Gross_Profit f1 \<noteq> NaN" "Gross_Profit f1 \<noteq> PInf"
    by (simp_all add: f1_def)
  from assms(4,5) have "finite_number (Operating_Expenses f1)" "finite_number (Operating_Income f1)"
    by (simp_all add: f1_def rule1_frame)
  with g1 have "Operating_Expenses (rule2 f1) \<noteq> NaN \<and> Operating_Income (rule2 f1) \<noteq> NaN"
    by (intro rule2_no_NaN)
  then have e2: "Operating_Expenses f2 \<noteq> NaN" and i2: "Operating_Income f2 \<noteq> NaN"
    by (simp_all add: f2_def)
  from c1 g1 net
  have c2: "Cost_of_Revenue f2 \<noteq> NaN" and g2: "Gross_Profit f2 \<noteq> NaN" "Gross_Profit f2 \<noteq> PInf"
    and n2: "Net_Income f2 \<noteq> NaN"
    by (simp_all add: f2_def f1_def rule2_frame rule1_frame)
  from i2 n2 have n3: "Net_Income f3 \<noteq> NaN" unfolding f3_def by (rule rule3_no_NaN)
  from c2 g2 e2 i2
  have c3: "Cost_of_Revenue f3 \<noteq> NaN" and g3: "Gross_Profit f3 \<noteq> NaN" "Gross_Profit f3 \<noteq> PInf"
    and e3: "Operating_Expenses f3 \<noteq> NaN" and i3: "Operating_Income f3 \<noteq> NaN"
    by (simp_all add: f3_def rule3_frame)
  from c3 g3 have c4: "Cost_of_Revenue f4 \<noteq> NaN" unfolding f4_def by (rule rule4_no_NaN)
  from g3 e3 i3 n3
  have g4: "Gross_Profit f4 \<noteq> NaN" and e4: "Operating_Expenses f4 \<noteq> NaN"
    and i4: "Operating_Income f4 \<noteq> NaN" and n4: "Net_Income f4 \<noteq> NaN"
    by (simp_all add: f4_def rule4_frame)
  from i4 n4 have "Operating_Income (rule5 f4) \<noteq> NaN" by (rule rule5_no_NaN)
  with c4 g4 e4 n4 show ?thesis
    by (simp add: infer_def f4_def f3_def f2_def f1_def rule5_frame)
qed

lemma or_zero_finite:
  "(\<And>v. c = Some v \<Longrightarrow> finite_number v) \<Longrightarrow> finite_number (or_zero c)"
proof -
  have "pow2 970 < pow2 1024" by (simp add: pow2_def)
  then have "finite_number (Fin 0)" by (simp add: finite_number_def)
  moreover assume "\<And>v. c = Some v \<Longrightarrow> finite_number v"
  ultimately show ?thesis by (cases c) (simp_all add: or_zero_def)
qed

lemma finite_inputs_keep_floor:
  assumes "cleanedData s = Some cd"
    and "\<And>k v. k \<in> set financial_fields \<Longrightarrow> cd k = Some v \<Longrightarrow> finite_number v"
    and "sankeyData s = Some g" and "l \<in> set (links g)"
  shows "at_least_floor (link_value l)"
proof -
  define fd where "fd = infer (initialFinancialData cd)"
  have "finite_number (or_zero (cd k))" if "k \<in> set financial_fields" for k
    using assms(2) that by (intro or_zero_finite) blast
  then have "Cost_of_Revenue fd \<noteq> NaN \<and> Gross_Profit fd \<noteq> NaN \<and>
         Operating_Expenses fd \<noteq> NaN \<and> Operating_Income fd \<noteq> NaN \<and> Net_Income fd \<noteq> NaN"
    unfolding fd_def
    by (intro infer_no_NaN) (simp_all add: initialFinancialData_def financial_fields_def)
  moreover from assms(1,3) have "links g = mkLinks fd"
    by (auto simp add: sankeyData_def financialData_def fd_def)
  ultimately show ?thesis
    using assms(4) by (auto intro: links_floor_unless_NaN)
qed

lemma financialData_infinite_revenue:
  "financialData [(''Revenue'', VNum PInf)] =
     Some \<lparr>Revenue = PInf, Cost_of_Revenue = PInf, Gross_Profit = NaN,
            Operating_Expenses = Fin 0, Operating_Income = Fin 0, Net_Income = Fin 0\<rparr>"
proof -
  have "initialFinancialData (cleanedLookup [(''Revenue'', VNum PInf)]) =
        \<lparr>Revenue = PInf, Cost_of_Revenue = Fin 0, Gross_Profit = Fin 0,
         Operating_Expenses = Fin 0, Operating_Income = Fin 0, Net_Income = Fin 0\<rparr>"
    by (simp add: initialFinancialData_def cleanedLookup_def cleanValue_def or_zero_def)
  moreover have
    "infer \<lparr>Revenue = PInf, Cost_of_Revenue = Fin 0, Gross_Profit = Fin 0,
            Operating_Expenses = Fin 0, Operating_Income = Fin 0, Net_Income = Fin 0\<rparr> =
     \<lparr>Revenue = PInf, Cost_of_Revenue = PInf, Gross_Profit = NaN,
      Operating_Expenses = Fin 0, Operating_Income = Fin 0, Net_Income = Fin 0\<rparr>"
    by (simp add: rule_defs fl_eval)
  ultimately show ?thesis by (simp add: financialData_char no_text_field_def)
qed

text \<open>
  Claim C4: every link has a layout value of at least 1, for every input. The clamping
  does not achieve it for the input \<open>{Revenue: Infinity}\<close>, nor for a Revenue string of
  310 digits, which produces the same graph: rule 1 computes Gross_Profit as infinity
  minus infinity, and the maximum of 1 and NaN is NaN, which is not at least 1.
\<close>

theorem infinite_revenue_breaks_floor:
  "map_option (\<lambda>g. links g ! 1) (sankeyData [(''Revenue'', VNum PInf)]) =
     Some \<lparr>source = 0, target = 2, link_value = NaN, absoluteValue = NaN\<rparr> \<and>
   map_option (\<lambda>g. at_least_floor (link_value (links g ! 1)))
     (sankeyData [(''Revenue'', VNum PInf)]) = Some False \<and>
   sankeyData [(''Revenue'', VStr (CHR ''1'' # replicate 309 (CHR ''0'')))] =
     sankeyData [(''Revenue'', VNum PInf)]"
proof -
  have "cleanedData [(''Revenue'', VStr (CHR ''1'' # replicate 309 (CHR ''0'')))] =
        cleanedData [(''Revenue'', VNum PInf)]"
    by (simp add: cleanedData_def cleanStatement_def cleanEntry_def assign_def
          parseFloat_overflow isNaN_def)
  then have "sankeyData [(''Revenue'', VStr (CHR ''1'' # replicate 309 (CHR ''0'')))] =
             sankeyData [(''Revenue'', VNum PInf)]"
    by (simp add: sankeyData_def financialData_def)
  moreover have "map_option (\<lambda>g. links g ! 1) (sankeyData [(''Revenue'', VNum PInf)]) =
     Some \<lparr>source = 0, target = 2, link_value = NaN, absoluteValue = NaN\<rparr>"
    by (simp add: sankeyData_def financialData_infinite_revenue mkLinks_def Math_max_def Let_def)
  ultimately show ?thesis
    by (auto simp add: at_least_floor_def js_eq_def)
qed

section \<open>A statement with a positive revenue only\<close>

lemma revenue_only_error_bound:
  assumes lo: "pow2 (- 1020) \<le> x" and hi: "x \<le> pow2 1023"
  shows "\<exists>c g. js_times (Fin x) (fl 0.65) = Fin c \<and> js_minus (Fin x) (Fin c) = Fin g \<and>
           \<bar>c - 0.65 * x\<bar> \<le> x * pow2 (- 52) \<and> \<bar>g - 0.35 * x\<bar> \<le> x * pow2 (- 51)"
proof -
  define L where "L = pow2 (- 1022)"
  define H where "H = pow2 1023"
  define T where "T = pow2 1024 - pow2 970"
  define u where "u = pow2 (- 53)"
  define c0 :: real where "c0 = 5854679515581645 / 2 ^ 53"
  have L: "0 < L" and H: "0 < H" by (simp_all add: L_def H_def)
  have lo4: "4 * L \<le> x" using lo pow2_add [of "- 1022" 2] by (simp add: L_def pow2_nat)
  have "pow2 1024 = 2 * H" using pow2_add [of 1023 1] by (simp add: H_def pow2_nat)
  moreover have "pow2 970 < H" unfolding H_def by (simp add: pow2_def)
  ultimately have T: "H < T" by (simp add: T_def)
  have u: "u = 1 / 2 ^ 53" by (simp add: u_def pow2_def)
  have u52: "pow2 (- 52) = 2 * u" and u51: "pow2 (- 51) = 4 * u"
    by (simp_all add: u_def pow2_def)
  have x: "0 < x" using lo4 L by linarith
  have "L \<le> x * c0" using lo4 L by (simp add: c0_def)
  moreover have "x * c0 < T" using hi T x by (simp add: c0_def H_def)
  ultimately obtain c where c: "fl (x * c0) = Fin c" and ce: "\<bar>c - x * c0\<bar> \<le> x * c0 * u"
    using fl_relative_error [of "x * c0"] by (auto simp add: L_def T_def u_def)
  from ce have ce1: "c \<le> x * c0 + x * c0 * u" and ce2: "x * c0 - x * c0 * u \<le> c"
    by linarith+
  from ce1 ce2 x have c_hi: "c \<le> 66 / 100 * x" and c_lo: "0 \<le> c"
    unfolding c0_def u by (simp_all add: field_simps)
  from c_hi lo4 L have "L \<le> x - c" by linarith
  moreover from c_lo hi T have "x - c < T" by (simp add: H_def)
  ultimately obtain g where g: "fl (x - c) = Fin g" and ge: "\<bar>g - (x - c)\<bar> \<le> (x - c) * u"
    using fl_relative_error [of "x - c"] by (auto simp add: L_def T_def u_def)
  from ge have ge1: "g \<le> (x - c) + (x - c) * u" and ge2: "(x - c) - (x - c) * u \<le> g"
    by linarith+
  from ce1 ce2 x have cb1: "c - 0.65 * x \<le> x * (2 * u)" and cb2: "0.65 * x - c \<le> x * (2 * u)"
    unfolding c0_def u by (simp_all add: field_simps)
  then have cb: "\<bar>c - 0.65 * x\<bar> \<le> x * (2 * u)" by linarith
  from ce1 ce2 ge1 ge2 x c_lo
  have gb1: "g - 0.35 * x \<le> x * (4 * u)" and gb2: "0.35 * x - g \<le> x * (4 * u)"
    unfolding c0_def u by (simp_all add: field_simps)
  then have gb: "\<bar>g - 0.35 * x\<bar> \<le> x * (4 * u)" by linarith
  have t: "js_times (Fin x) (fl 0.65) = Fin c"
    unfolding fl_065 using c by (simp add: c0_def)
  have m: "js_minus (Fin x) (Fin c) = Fin g"
    using g by simp
  from t m cb gb show ?thesis
    unfolding u52 u51 by blast
qed

lemma revenue_only_statement:
  "financialData [(''Revenue'', VNum r)] =
     Some (infer (initialFinancialData (cleanedLookup [(''Revenue'', VNum r)])))"
  by (simp add: financialData_char no_text_field_def)

text \<open>
  Claim C2, as stated: with a positive Revenue as the only field, Gross_Profit is exactly
  0.35 times Revenue. For Revenue 9 the code produces 3.1499999999999995, which is
  neither the real number 3.15, nor the binary64 number nearest to it, nor the
  binary64 product of 0.35 and 9.
\<close>

theorem gross_profit_not_035_revenue:
  "map_option Gross_Profit (financialData [(''Revenue'', VNum (Fin 9))]) =
     Some (Fin (3546584706554265 / 2 ^ 50)) \<and>
   map_option Gross_Profit (financialData [(''Revenue'', VNum (Fin 9))]) \<noteq>
     Some (Fin (0.35 * 9)) \<and>
   map_option Gross_Profit (financialData [(''Revenue'', VNum (Fin 9))]) \<noteq>
     Some (fl (0.35 * 9)) \<and>
   map_option Gross_Profit (financialData [(''Revenue'', VNum (Fin 9))]) \<noteq>
     Some (js_times (fl 0.35) (Fin 9))"
proof -
  have "initialFinancialData (cleanedLookup [(''Revenue'', VNum (Fin 9))]) =
        \<lparr>Revenue = Fin 9, Cost_of_Revenue = Fin 0, Gross_Profit = Fin 0,
         Operating_Expenses = Fin 0, Operating_Income = Fin 0, Net_Income = Fin 0\<rparr>"
    by (simp add: initialFinancialData_def cleanedLookup_def cleanValue_def or_zero_def)
  moreover have
    "rule1 \<lparr>Revenue = Fin 9, Cost_of_Revenue = Fin 0, Gross_Profit = Fin 0,
            Operating_Expenses = Fin 0, Operating_Income = Fin 0, Net_Income = Fin 0\<rparr> =
     \<lparr>Revenue = Fin 9, Cost_of_Revenue = Fin (6586514455029351 / 2 ^ 50),
      Gross_Profit = Fin (3546584706554265 / 2 ^ 50),
      Operating_Expenses = Fin 0, Operating_Income = Fin 0, Net_Income = Fin 0\<rparr>"
    by (simp add: rule_defs fl_eval)
  ultimately have g:
    "map_option Gross_Profit (financialData [(''Revenue'', VNum (Fin 9))]) =
       Some (Fin (3546584706554265 / 2 ^ 50))"
    by (simp add: revenue_only_statement infer_def rule_frames rule4_idle js_eq_def)
  have nearest: "fl (0.35 * 9) = Fin (7093169413108531 / 2 ^ 51)"
    by (simp add: fl_eval)
  have product: "js_times (fl 0.35) (Fin 9) = Fin (7093169413108531 / 2 ^ 51)"
    by (simp add: fl_eval)
  show ?thesis
    unfolding g nearest product by simp
qed

text \<open>
  Claim C2, amended. With a positive Revenue as the only field, Revenue is kept,
  Cost_of_Revenue is exactly the binary64 product of Revenue and 0.65, and Gross_Profit is
  exactly the binary64 difference of Revenue and that Cost_of_Revenue; rules 2 to 5 change
  none of the three. For a finite Revenue between \<open>2 ^ - 1020\<close> and \<open>2 ^ 1023\<close> the
  two are finite, Cost_of_Revenue within Revenue times \<open>2 ^ - 52\<close> of 0.65 times Revenue
  and Gross_Profit within Revenue times \<open>2 ^ - 51\<close> of 0.35 times Revenue.
\<close>

theorem revenue_only_inference:
  "(js_gt r (Fin 0) \<longrightarrow>
      (\<exists>fd. financialData [(''Revenue'', VNum r)] = Some fd \<and>
            Revenue fd = r \<and>
            Cost_of_Revenue fd = js_times r (fl 0.65) \<and>
            Gross_Profit fd = js_minus r (js_times r (fl 0.65)))) \<and>
   (pow2 (- 1020) \<le> x \<and> x \<le> pow2 1023 \<longrightarrow>
      (\<exists>fd c g. financialData [(''Revenue'', VNum (Fin x))] = Some fd \<and>
             Cost_of_Revenue fd = Fin c \<and> Gross_Profit fd = Fin g \<and>
             \<bar>c - 0.65 * x\<bar> \<le> x * pow2 (- 52) \<and> \<bar>g - 0.35 * x\<bar> \<le> x * pow2 (- 51)))"
proof -
  have exact:
    "\<exists>fd. financialData [(''Revenue'', VNum r)] = Some fd \<and>
          Revenue fd = r \<and>
          Cost_of_Revenue fd = js_times r (fl 0.65) \<and>
          Gross_Profit fd = js_minus r (js_times r (fl 0.65))"
    if pos: "js_gt r (Fin 0)" for r
  proof -
    from pos have r: "r \<noteq> NaN" "r \<noteq> Fin 0" by (simp_all add: js_gt_zero)
    then have init: "initialFinancialData (cleanedLookup [(''Revenue'', VNum r)]) =
        \<lparr>Revenue = r, Cost_of_Revenue = Fin 0, Gross_Profit = Fin 0,
         Operating_Expenses = Fin 0, Operating_Income = Fin 0, Net_Income = Fin 0\<rparr>"
      by (simp add: initialFinancialData_def cleanedLookup_def cleanValue_def or_zero_def)
    from pos have one:
      "rule1 \<lparr>Revenue = r, Cost_of_Revenue = Fin 0, Gross_Profit = Fin 0,
              Operating_Expenses = Fin 0, Operating_Income = Fin 0, Net_Income = Fin 0\<rparr> =
       \<lparr>Revenue = r, Cost_of_Revenue = js_times r (fl 0.65),
        Gross_Profit = js_minus r (js_times r (fl 0.65)),
        Operating_Expenses = Fin 0, Operating_Income = Fin 0, Net_Income = Fin 0\<rparr>"
      by (simp add: rule1_def js_eq_def Let_def)
    from r have "\<not> js_eq (Revenue (rule3 (rule2 (rule1 (initialFinancialData
                    (cleanedLookup [(''Revenue'', VNum r)])))))) (Fin 0)"
      by (simp add: init js_eq_def rule_frames)
    then show ?thesis
      by (simp add: revenue_only_statement infer_def rule_frames rule4_idle init one)
  qed
  have "\<exists>fd c g. financialData [(''Revenue'', VNum (Fin x))] = Some fd \<and>
             Cost_of_Revenue fd = Fin c \<and> Gross_Profit fd = Fin g \<and>
             \<bar>c - 0.65 * x\<bar> \<le> x * pow2 (- 52) \<and> \<bar>g - 0.35 * x\<bar> \<le> x * pow2 (- 51)"
    if range: "pow2 (- 1020) \<le> x \<and> x \<le> pow2 1023"
  proof -
    from range pow2_pos [of "- 1020"] have "0 < x" by linarith
    then have "js_gt (Fin x) (Fin 0)" by simp
    from exact [OF this] obtain fd where
      fd: "financialData [(''Revenue'', VNum (Fin x))] = Some fd"
        "Cost_of_Revenue fd = js_times (Fin x) (fl 0.65)"
        "Gross_Profit fd = js_minus (Fin x) (js_times (Fin x) (fl 0.65))"
      by blast
    from range obtain c g where
      "js_times (Fin x) (fl 0.65) = Fin c" "js_minus (Fin x) (Fin c) = Fin g"
      "\<bar>c - 0.65 * x\<bar> \<le> x * pow2 (- 52)" "\<bar>g - 0.35 * x\<bar> \<le> x * pow2 (- 51)"
      using revenue_only_error_bound [of x] by blast
    with fd show ?thesis by (metis (no_types))
  qed
  with exact show ?thesis by blast
qed

theorem revenue_only_inference_witness:
  "js_gt (Fin 100) (Fin 0) \<and> pow2 (- 1020) \<le> 100 \<and> 100 \<le> pow2 1023 \<and>
   map_option Cost_of_Revenue (financialData [(''Revenue'', VNum (Fin 100))]) = Some (Fin 65) \<and>
   map_option Gross_Profit (financialData [(''Revenue'', VNum (Fin 100))]) = Some (Fin 35) \<and>
   \<bar>65 - 0.65 * 100\<bar> \<le> 100 * pow2 (- 52) \<and> \<bar>35 - 0.35 * 100\<bar> \<le> 100 * pow2 (- 51)"
proof -
  have range: "pow2 (- 1020) \<le> 100 \<and> 100 \<le> pow2 1023"
    by (simp add: pow2_def)
  have "js_times (Fin 100) (fl 0.65) = Fin 65"
    by (simp add: fl_eval)
  moreover have "js_minus (Fin 100) (Fin 65) = Fin 35"
    by (simp add: fl_eval)
  ultimately show ?thesis
    using revenue_only_inference [of "Fin 100" 100] range by auto
qed

end
